theory Spec2Isabelle
  imports Main "HOL-Library.AList"
begin

section \<open>JavaScript values\<close>

text \<open>
  Tool arguments and tool schemas are JSON-shaped JavaScript values. A string is the list
  of its code units, an array the list of its elements, an object the list of its own
  enumerable string-keyed properties in the order \<^verbatim>\<open>Object.entries\<close> yields them.
  Numbers are a type parameter: apart from the truthiness test of \<^verbatim>\<open>||\<close> the code below
  never looks into one. \<^verbatim>\<open>undefined\<close> is a value too: it is what reading a missing member
  gives, and what an absent argument is.
\<close>

datatype 'n json =
    JUndefined
  | JNull
  | JBool bool
  | JNumber 'n
  | JString string
  | JArray "'n json list"
  | JObject "(string \<times> 'n json) list"

text \<open>
  JavaScript truthiness, as \<^verbatim>\<open>||\<close>, \<^verbatim>\<open>&&\<close>, \<^verbatim>\<open>!\<close> and \<^verbatim>\<open>if\<close> test it. Of the numbers,
  zero is falsy; \<^verbatim>\<open>NaN\<close>, falsy as well, has no JSON text and is not among these values.
\<close>

definition truthy :: "('n::zero) json \<Rightarrow> bool" where
  "truthy v =
     (case v of
        JUndefined \<Rightarrow> False
      | JNull \<Rightarrow> False
      | JBool b \<Rightarrow> b
      | JNumber n \<Rightarrow> n \<noteq> 0
      | JString s \<Rightarrow> s \<noteq> []
      | JArray _ \<Rightarrow> True
      | JObject _ \<Rightarrow> True)"

text \<open>
  An own property of an object. An object has one value for a key; should a list name a
  key twice, the later entry stands, as it does in an object literal and in JSON text.
\<close>

definition own_property :: "(string \<times> 'n json) list \<Rightarrow> string \<Rightarrow> 'n json" where
  "own_property kvs name = (case map_of (rev kvs) name of Some x \<Rightarrow> x | None \<Rightarrow> JUndefined)"

text \<open>
  \<^verbatim>\<open>v?.name\<close> for the member names the code reads by name (\<^verbatim>\<open>type\<close>, \<^verbatim>\<open>items\<close>,
  \<^verbatim>\<open>properties\<close>, \<^verbatim>\<open>content\<close>, ...): an own property of an object, and \<^verbatim>\<open>undefined\<close>
  on everything else, since no built-in prototype has a member of one of these names.
\<close>

definition get_member :: "'n json \<Rightarrow> string \<Rightarrow> 'n json" where
  "get_member v name = (case v of JObject kvs \<Rightarrow> own_property kvs name | _ \<Rightarrow> JUndefined)"

definition is_digit :: "char \<Rightarrow> bool" where
  "is_digit c \<longleftrightarrow> c \<in> set ''0123456789''"

text \<open>A property key is an array index when it is the canonical decimal numeral of one.\<close>

definition array_index :: "string \<Rightarrow> nat option" where
  "array_index key =
     (if key \<noteq> [] \<and> list_all is_digit key \<and> (key = ''0'' \<or> hd key \<noteq> CHR ''0'')
      then Some (foldl (\<lambda>n c. 10 * n + (of_char c - 48)) 0 key)
      else None)"

text \<open>
  \<^verbatim>\<open>v[key]\<close> for a computed key: an own property of an object, an element of an array,
  a one-unit string of a string. Every other read (a missing key, \<^verbatim>\<open>length\<close>, a member
  inherited from a built-in prototype) yields \<^verbatim>\<open>undefined\<close>, a number, a function or
  the prototype object; none of these has a \<^verbatim>\<open>type\<close>, \<^verbatim>\<open>items\<close> or \<^verbatim>\<open>properties\<close>
  member, so as a schema each acts like \<^verbatim>\<open>undefined\<close>, which stands for all of them here.
\<close>

definition get_index :: "'n json \<Rightarrow> string \<Rightarrow> 'n json" where
  "get_index v key =
     (case v of
        JObject kvs \<Rightarrow> own_property kvs key
      | JArray xs \<Rightarrow>
          (case array_index key of
             Some i \<Rightarrow> if i < length xs then xs ! i else JUndefined
           | None \<Rightarrow> JUndefined)
      | JString s \<Rightarrow>
          (case array_index key of
             Some i \<Rightarrow> if i < length s then JString [s ! i] else JUndefined
           | None \<Rightarrow> JUndefined)
      | _ \<Rightarrow> JUndefined)"

text \<open>
  \<^verbatim>\<open>obj[key] = value\<close> on an object built up from \<^verbatim>\<open>{}\<close>: the value of an existing key
  is replaced in place, a new key is appended. The key \<^verbatim>\<open>__proto__\<close> is the one exception:
  the assignment goes to the prototype setter and creates no own property.
\<close>

definition assign :: "(string \<times> 'n json) list \<Rightarrow> string \<times> 'n json \<Rightarrow> (string \<times> 'n json) list" where
  "assign obj kv = (if fst kv = ''__proto__'' then obj else AList.update (fst kv) (snd kv) obj)"

text \<open>
  \<^verbatim>\<open>String.prototype.trim\<close> and \<^verbatim>\<open>startsWith\<close>. The white space and line terminators
  listed are those among the code units a \<^typ>\<open>char\<close> can hold.
\<close>

definition is_white_space :: "char \<Rightarrow> bool" where
  "is_white_space c \<longleftrightarrow>
     c \<in> set [CHR 0x09, CHR 0x0A, CHR 0x0B, CHR 0x0C, CHR 0x0D, CHR 0x20, CHR 0xA0]"

definition trim :: "string \<Rightarrow> string" where
  "trim s = rev (dropWhile is_white_space (rev (dropWhile is_white_space s)))"

definition startsWith :: "string \<Rightarrow> string \<Rightarrow> bool" where
  "startsWith s p \<longleftrightarrow> take (length p) s = p"

text \<open>\<^verbatim>\<open>typeof v === "object"\<close>: objects, arrays and \<^verbatim>\<open>null\<close>.\<close>

definition is_object_type :: "'n json \<Rightarrow> bool" where
  "is_object_type v =
     (case v of JNull \<Rightarrow> True | JArray _ \<Rightarrow> True | JObject _ \<Rightarrow> True | _ \<Rightarrow> False)"

text \<open>The decimal numeral of a natural number, as \<^verbatim>\<open>String(n)\<close> writes it.\<close>

fun decimal :: "nat \<Rightarrow> string" where
  "decimal n =
     (if n < 10 then [''0123456789'' ! n]
      else decimal (n div 10) @ [''0123456789'' ! (n mod 10)])"

declare decimal.simps [simp del]

text \<open>
  The own enumerable properties of a value: the entries of an object, the indexed
  elements of an array, the indexed code units of a string, and none for any other
  value. This is what an object spread \<^verbatim>\<open>{...v}\<close> copies, and what \<^verbatim>\<open>Object.entries(v)\<close>
  returns unless \<^verbatim>\<open>v\<close> is \<^verbatim>\<open>null\<close> or \<^verbatim>\<open>undefined\<close>, on which \<^verbatim>\<open>Object.entries\<close>
  throws.
\<close>

definition entries :: "'n json \<Rightarrow> (string \<times> 'n json) list" where
  "entries v =
     (case v of
        JObject kvs \<Rightarrow> kvs
      | JArray xs \<Rightarrow> zip (map decimal [0..<length xs]) xs
      | JString s \<Rightarrow> zip (map decimal [0..<length s]) (map (\<lambda>c. JString [c]) s)
      | _ \<Rightarrow> [])"

text \<open>
  Results of steps that can throw, run in order: the results when every step returned,
  and otherwise what the first failing step threw.
\<close>

fun collect :: "('e + 'a) list \<Rightarrow> 'e + 'a list" where
  "collect [] = Inr []"
| "collect (Inl e # rs) = Inl e"
| "collect (Inr x # rs) = (case collect rs of Inl e \<Rightarrow> Inl e | Inr xs \<Rightarrow> Inr (x # xs))"

text \<open>
  A value caught by a \<^verbatim>\<open>catch\<close>: an \<^verbatim>\<open>Error\<close> object with its message, or any other
  thrown value, given by its \<^verbatim>\<open>message\<close> member (when it has one that is a string) and
  by what \<^verbatim>\<open>String(value)\<close> returns.
\<close>

datatype thrown =
    JsError string
  | JsOther "string option" string

subsection \<open>\<^verbatim>\<open>JSON.parse\<close>\<close>

text \<open>
  \<^verbatim>\<open>JSON.parse\<close> belongs to the JavaScript runtime, not to this repository, so the
  embedding takes it as a parameter: a function from a text to the parsed value, or to
  \<open>None\<close> where \<^verbatim>\<open>JSON.parse\<close> throws a \<^verbatim>\<open>SyntaxError\<close>. The one property of it
  the embedding relies on is that a parsed value is no larger than its text (every
  value, and every code unit of a string in it, is written with at least one code unit of
  the text); this is what makes the recursion of \<^verbatim>\<open>deepSanitizeParams\<close> on a parsed
  value end.
\<close>

fun jsize :: "'n json \<Rightarrow> nat" where
  "jsize (JString s) = Suc (length s)"
| "jsize (JArray xs) = Suc (sum_list (map jsize xs))"
| "jsize (JObject kvs) = Suc (sum_list (map (\<lambda>(k, v). jsize v) kvs))"
| "jsize _ = 1"

typedef 'n json_parser =
  "{p :: string \<Rightarrow> 'n json option. \<forall>t v. p t = Some v \<longrightarrow> jsize v \<le> length t}"
  by (rule exI[of _ "\<lambda>_. None"]) simp

definition JSON_parse :: "'n json_parser \<Rightarrow> string \<Rightarrow> 'n json option" where
  "JSON_parse P t = Rep_json_parser P t"

lemma JSON_parse_size: "JSON_parse P t = Some v \<Longrightarrow> jsize v \<le> length t"
  using Rep_json_parser [of P] by (simp add: JSON_parse_def)

lemma jsize_item: "x \<in> set xs \<Longrightarrow> jsize x \<le> sum_list (map jsize xs)"
  by (simp add: member_le_sum_list)

lemma jsize_entry: "(k, v) \<in> set kvs \<Longrightarrow> jsize v \<le> sum_list (map (\<lambda>(k, v). jsize v) kvs)"
  by (induction kvs) auto

lemma jsize_entries: "is_object_type x \<Longrightarrow> (k, v) \<in> set (entries x) \<Longrightarrow> jsize v < jsize x"
  by (cases x) (auto simp: entries_def is_object_type_def less_Suc_eq_le dest: jsize_entry jsize_item set_zip_rightD)

lemma jsize_element: "x \<in> set xs \<Longrightarrow> jsize x < jsize (JArray xs)"
  using jsize_item [of x xs] by simp

lemma jsize_value: "(k, v) \<in> set kvs \<Longrightarrow> jsize v < jsize (JObject kvs)"
  using jsize_entry [of k v kvs] by simp

lemma jsize_nested:
  "(k, v) \<in> set kvs \<Longrightarrow> is_object_type v \<Longrightarrow> (pn, pv) \<in> set (entries v)
   \<Longrightarrow> jsize pv < jsize (JObject kvs)"
  using jsize_value [of k v kvs] jsize_entries [of v pn pv] by simp

text \<open>
  A parser for concrete runs: it knows the texts \<^verbatim>\<open>{"a":1}\<close> and \<^verbatim>\<open>{"q":"x"}\<close> and
  rejects every other one.
\<close>

definition sample_parse :: "string \<Rightarrow> int json option" where
  \<open>sample_parse t =
     (if t = ''{"a":1}'' then Some (JObject [(''a'', JNumber 1)])
      else if t = ''{"q":"x"}'' then Some (JObject [(''q'', JString ''x'')])
      else None)\<close>

definition sample_parser :: "int json_parser" where
  "sample_parser = Abs_json_parser sample_parse"

section \<open>Schema Normalizer: argument normalization (\<^verbatim>\<open>src/utils/schema.ts\<close>)\<close>

text \<open>
  \<^verbatim>\<open>deepSanitizeParams(params, schema, fieldName, logger)\<close>. The branches stand in the
  order of the source. The logger calls are left out: they do not change the result.
  The loop over \<^verbatim>\<open>Object.entries(params)\<close> computes each sanitized value and assigns it
  to \<^verbatim>\<open>sanitized[key]\<close> in turn; \<^verbatim>\<open>properties\<close> is \<^verbatim>\<open>schema?.properties || {}\<close>.
\<close>

function deepSanitizeParams ::
  "'n json_parser \<Rightarrow> ('n::zero) json \<Rightarrow> 'n json \<Rightarrow> string option \<Rightarrow> 'n json" where
  "deepSanitizeParams P params schema fieldName =
     (case params of
        JNull \<Rightarrow> params
      | JUndefined \<Rightarrow> params
      | JString s \<Rightarrow>
          if startsWith (trim s) ''{'' \<or> startsWith (trim s) ''['' then
            if get_member schema ''type'' = JString ''string'' then params
            else if get_member schema ''type'' = JString ''object''
                  \<or> get_member schema ''type'' = JString ''array'' then
              (case JSON_parse P s of
                 Some parsed \<Rightarrow> deepSanitizeParams P parsed schema fieldName
               | None \<Rightarrow> params)
            else if fieldName = Some ''arguments'' then
              (case JSON_parse P s of
                 Some parsed \<Rightarrow> deepSanitizeParams P parsed schema fieldName
               | None \<Rightarrow> params)
            else params
          else params
      | JArray xs \<Rightarrow>
          JArray (map (\<lambda>item. deepSanitizeParams P item (get_member schema ''items'') fieldName) xs)
      | JObject kvs \<Rightarrow>
          (let properties = (if truthy (get_member schema ''properties'')
                             then get_member schema ''properties'' else JObject [])
           in JObject (foldl assign []
                (map (\<lambda>(key, val).
                        (key, deepSanitizeParams P val (get_index properties key) (Some key)))
                   kvs)))
      | _ \<Rightarrow> params)"
  by pat_completeness auto
termination
  apply (relation "measure (\<lambda>(P, params, schema, fieldName). jsize params)")
      apply simp
     apply (auto dest: JSON_parse_size jsize_item jsize_entry simp: less_Suc_eq_le)
  done

declare deepSanitizeParams.simps [simp del]

section \<open>Schema Normalizer: cleaning for a restricted provider (\<^verbatim>\<open>src/utils/schema.ts\<close>)\<close>

text \<open>The keys the loop of \<^verbatim>\<open>sanitizeSchemaForGemini\<close> passes over with \<^verbatim>\<open>continue\<close>.\<close>

definition skipped :: "'n json \<Rightarrow> string \<Rightarrow> bool" where
  "skipped schema key \<longleftrightarrow>
     key = ''oneOf'' \<or> key = ''anyOf'' \<or> key = ''allOf'' \<or> key = ''const''
     \<or> (key = ''enum'' \<and> get_member schema ''type'' \<noteq> JString ''string'')
     \<or> key = ''required''"

text \<open>
  \<^verbatim>\<open>sanitizeSchemaForGemini(schema)\<close>. A value that is falsy or not an object is returned
  as it is, an array is mapped, and an object is rebuilt entry by entry, in the order of
  the source's tests. \<^verbatim>\<open>Object.entries(value)\<close> throws a \<^verbatim>\<open>TypeError\<close> when \<^verbatim>\<open>value\<close>
  is \<^verbatim>\<open>null\<close>, which the test \<^verbatim>\<open>typeof value === "object"\<close> on \<^verbatim>\<open>properties\<close> lets
  through; the function has no \<^verbatim>\<open>try\<close>, so the error leaves it. The closing test reads
  \<^verbatim>\<open>result.type\<close> and \<^verbatim>\<open>result.properties\<close>.

  An own member named \<^verbatim>\<open>__proto__\<close> of a schema object would be assigned to
  \<^verbatim>\<open>result.__proto__\<close> and so replace the prototype of \<^verbatim>\<open>result\<close>, through which the
  closing test would then read. Prototypes are not part of these values: the results
  below are stated for schemas without such a member (\<open>proto_free\<close>).
\<close>

function sanitizeSchemaForGemini :: "('n::zero) json \<Rightarrow> thrown + 'n json" where
  "sanitizeSchemaForGemini schema =
     (case schema of
        JArray xs \<Rightarrow> map_sum id JArray (collect (map sanitizeSchemaForGemini xs))
      | JObject kvs \<Rightarrow>
          (case collect (map (\<lambda>(key, val).
                   if key = ''properties'' \<and> is_object_type val then
                     (if val = JNull
                      then Inl (JsError ''Cannot convert undefined or null to object'')
                      else map_sum id (\<lambda>ps. (key, JObject (foldl assign [] ps)))
                             (collect (map (\<lambda>(propName, propValue).
                                         map_sum id (Pair propName) (sanitizeSchemaForGemini propValue))
                                       (entries val))))
                   else if (key = ''items'' \<or> key = ''additionalProperties'') \<and> is_object_type val
                     then map_sum id (Pair key) (sanitizeSchemaForGemini val)
                   else if is_object_type val \<and> val \<noteq> JNull
                     then map_sum id (Pair key) (sanitizeSchemaForGemini val)
                   else Inr (key, val))
                 (filter (\<lambda>(key, val). \<not> skipped schema key) kvs)) of
             Inl e \<Rightarrow> Inl e
           | Inr es \<Rightarrow>
               (let result = foldl assign [] es in
                Inr (JObject
                  (if own_property result ''type'' = JString ''object''
                      \<and> \<not> truthy (own_property result ''properties'')
                   then assign result (''properties'', JObject [])
                   else result))))
      | _ \<Rightarrow> Inr schema)"
  by pat_completeness auto
termination
  apply (relation "measure jsize")
      apply simp
     apply (auto simp del: jsize.simps intro: jsize_element jsize_value jsize_nested)
  done


declare sanitizeSchemaForGemini.simps [simp del]

text \<open>
  What the cleaning pass is to achieve. \<open>node_ok\<close> is the condition on one object: none
  of the keys \<^verbatim>\<open>oneOf\<close>, \<^verbatim>\<open>anyOf\<close>, \<^verbatim>\<open>allOf\<close>, \<^verbatim>\<open>const\<close>, \<^verbatim>\<open>required\<close>; an
  \<^verbatim>\<open>enum\<close> key only next to type \<^verbatim>\<open>"string"\<close>; a \<^verbatim>\<open>properties\<close> key next to type
  \<^verbatim>\<open>"object"\<close>. \<open>restricted_everywhere\<close> asks it of every object of a value.
  \<open>restricted\<close> asks it of every schema node: of every object but the map that stands
  under a \<^verbatim>\<open>properties\<close> key, whose keys are the names of the declared properties and
  whose values are schema nodes again.
\<close>

definition banned :: "string \<Rightarrow> bool" where
  "banned key \<longleftrightarrow> key \<in> set [''oneOf'', ''anyOf'', ''allOf'', ''const'', ''required'']"

definition node_ok :: "(string \<times> 'n json) list \<Rightarrow> bool" where
  "node_ok kvs \<longleftrightarrow>
     list_all (\<lambda>(key, val). \<not> banned key) kvs
     \<and> (''enum'' \<in> set (map fst kvs) \<longrightarrow> own_property kvs ''type'' = JString ''string'')
     \<and> (own_property kvs ''type'' = JString ''object'' \<longrightarrow> ''properties'' \<in> set (map fst kvs))"

fun restricted_everywhere :: "'n json \<Rightarrow> bool" where
  "restricted_everywhere (JObject kvs) =
     (node_ok kvs \<and> list_all (\<lambda>(key, val). restricted_everywhere val) kvs)"
| "restricted_everywhere (JArray xs) = list_all restricted_everywhere xs"
| "restricted_everywhere _ = True"

fun restricted :: "'n json \<Rightarrow> bool" where
  "restricted (JObject kvs) =
     (node_ok kvs
      \<and> list_all (\<lambda>(key, val).
           if key = ''properties''
           then (case val of
                   JObject ps \<Rightarrow> list_all (\<lambda>(propName, p). restricted p) ps
                 | _ \<Rightarrow> restricted val)
           else restricted val) kvs)"
| "restricted (JArray xs) = list_all restricted xs"
| "restricted _ = True"

fun proto_free :: "'n json \<Rightarrow> bool" where
  "proto_free (JObject kvs) = list_all (\<lambda>(key, val). key \<noteq> ''__proto__'' \<and> proto_free val) kvs"
| "proto_free (JArray xs) = list_all proto_free xs"
| "proto_free _ = True"

fun no_null_properties :: "'n json \<Rightarrow> bool" where
  "no_null_properties (JObject kvs) =
     list_all (\<lambda>(key, val). \<not> (key = ''properties'' \<and> val = JNull) \<and> no_null_properties val) kvs"
| "no_null_properties (JArray xs) = list_all no_null_properties xs"
| "no_null_properties _ = True"

text \<open>
  How one entry of a node is rebuilt: \<open>value_ok\<close> is what \<open>restricted\<close> asks of an
  entry of a node, and \<open>entry_ok kv e\<close> says that \<open>e\<close> is a rebuilt \<open>kv\<close>: the same key,
  the same value when the value is no object, and a value that is \<open>value_ok\<close>.
\<close>

definition value_ok :: "string \<times> 'n json \<Rightarrow> bool" where
  "value_ok e \<longleftrightarrow>
     (if fst e = ''properties''
      then (case snd e of
              JObject ps \<Rightarrow> list_all (\<lambda>(propName, p). restricted p) ps
            | _ \<Rightarrow> restricted (snd e))
      else restricted (snd e))"

definition entry_ok :: "string \<times> 'n json \<Rightarrow> string \<times> 'n json \<Rightarrow> bool" where
  "entry_ok kv e \<longleftrightarrow>
     fst e = fst kv \<and> (\<not> is_object_type (snd kv) \<longrightarrow> snd e = snd kv) \<and> value_ok e"

section \<open>Session Registry (\<^verbatim>\<open>src/mcp/MCPClient.ts\<close>)\<close>

text \<open>\<^verbatim>\<open>error instanceof Error ? error.message : "Unknown error"\<close>\<close>

definition message_or_unknown :: "thrown \<Rightarrow> string" where
  "message_or_unknown e = (case e of JsError m \<Rightarrow> m | JsOther _ _ \<Rightarrow> ''Unknown error'')"

text \<open>
  An \<^verbatim>\<open>MCPSession\<close> is an object of the Transport Collaborator; the registry only
  stores it and hands it back, so the model knows a session by its identity. The state
  of an \<^verbatim>\<open>MCPClient\<close> is its private map \<^verbatim>\<open>sessions\<close>; next to it the model keeps
  \<open>closed\<close>, the sessions on which a \<^verbatim>\<open>closeTransport\<close> call has completed, in order.
\<close>

type_synonym session = nat

record MCPClient =
  sessions :: "string \<rightharpoonup> session"
  closed :: "session list"

record MCPResult =
  success :: bool
  error :: "string option"

text \<open>
  The methods are run one at a time, each to its end. What the Transport Collaborator
  answers to a call is an argument of the model: \<open>closeTransport\<close> is \<open>None\<close> when
  \<^verbatim>\<open>transportFactory.closeTransport(session)\<close> resolves and \<open>Some e\<close> when it rejects with
  \<open>e\<close>; \<open>createTransport\<close> is the session it resolves to, or what it rejects with.
\<close>

definition destroySession :: "thrown option \<Rightarrow> MCPClient \<Rightarrow> string \<Rightarrow> MCPResult \<times> MCPClient" where
  "destroySession closeTransport c sessionId =
     (case sessions c sessionId of
        Some session \<Rightarrow>
          (case closeTransport of
             None \<Rightarrow>
               (\<lparr>success = True, error = None\<rparr>,
                c\<lparr>sessions := (sessions c)(sessionId := None), closed := closed c @ [session]\<rparr>)
           | Some e \<Rightarrow> (\<lparr>success = False, error = Some (message_or_unknown e)\<rparr>, c))
      | None \<Rightarrow> (\<lparr>success = True, error = None\<rparr>, c))"

text \<open>
  \<^verbatim>\<open>createSession\<close> awaits \<^verbatim>\<open>destroySession\<close> and drops its outcome, then awaits
  \<^verbatim>\<open>createTransport\<close>; the API key and the resume history only travel to the collaborator.
\<close>

definition createSession ::
  "thrown option \<Rightarrow> thrown + session \<Rightarrow> MCPClient \<Rightarrow> string \<Rightarrow> MCPResult \<times> MCPClient" where
  "createSession closeTransport createTransport c sessionId =
     (let c1 = snd (destroySession closeTransport c sessionId) in
      case createTransport of
        Inr session \<Rightarrow>
          (\<lparr>success = True, error = None\<rparr>, c1\<lparr>sessions := (sessions c1)(sessionId \<mapsto> session)\<rparr>)
      | Inl e \<Rightarrow> (\<lparr>success = False, error = Some (message_or_unknown e)\<rparr>, c1))"

definition hasSession :: "MCPClient \<Rightarrow> string \<Rightarrow> bool" where
  "hasSession c sessionId \<longleftrightarrow> sessions c sessionId \<noteq> None"

record SessionInfo =
  exists :: bool
  isConnected :: "bool option"

text \<open>\<^verbatim>\<open>getSessionInfo\<close> returns the client it was given, to state that it leaves it alone.\<close>

definition getSessionInfo :: "MCPClient \<Rightarrow> string \<Rightarrow> SessionInfo \<times> MCPClient" where
  "getSessionInfo c sessionId =
     (case sessions c sessionId of
        None \<Rightarrow> (\<lparr>exists = False, isConnected = None\<rparr>, c)
      | Some session \<Rightarrow> (\<lparr>exists = True, isConnected = Some True\<rparr>, c))"

text \<open>
  The optional collaborators of \<^verbatim>\<open>MCPClientConfig\<close>. An image handler is given by what
  its two methods answer: \<open>initialize\<close> resolves (\<open>None\<close>) or rejects, and
  \<open>processToolResult\<close> resolves to \<^verbatim>\<open>{content, savedImages}\<close> or rejects.
  \<open>getCurrentUserId\<close> is \<open>None\<close> when the function is not configured, and otherwise
  what it returns (a user id or \<^verbatim>\<open>null\<close>).
\<close>

record 'n processed =
  content :: "'n json"
  savedImages :: "'n json"

record 'n imageHandler =
  initialize :: "thrown option"
  processToolResult :: "thrown + 'n processed"

record 'n MCPClientConfig =
  imageHandler :: "'n imageHandler option"
  getCurrentUserId :: "string option option"

text \<open>\<^verbatim>\<open>result.content.some((item) => item?.type === "image" && item?.data)\<close>\<close>

definition hasImages :: "('n::zero) json list \<Rightarrow> bool" where
  "hasImages items =
     list_ex (\<lambda>item. get_member item ''type'' = JString ''image'' \<and> truthy (get_member item ''data''))
       items"

text \<open>\<^verbatim>\<open>{...result, content: processed.content, savedImages: processed.savedImages}\<close>\<close>

definition with_processed :: "'n json \<Rightarrow> 'n processed \<Rightarrow> 'n json" where
  "with_processed result p =
     JObject (AList.update ''savedImages'' (savedImages p)
               (AList.update ''content'' (content p)
                 (case result of JObject kvs \<Rightarrow> kvs | _ \<Rightarrow> [])))"

text \<open>
  \<^verbatim>\<open>callTool\<close>: \<open>client_callTool\<close> is what \<^verbatim>\<open>session.client.callTool(toolCall)\<close> answers.
  A rejection of any awaited promise leaves the method as that rejection: the method has
  no \<^verbatim>\<open>try\<close>.
\<close>

definition callTool ::
  "('n::zero) MCPClientConfig \<Rightarrow> thrown + 'n json \<Rightarrow> MCPClient \<Rightarrow> string \<Rightarrow> thrown + 'n json" where
  "callTool config client_callTool c sessionId =
     (case sessions c sessionId of
        None \<Rightarrow> Inl (JsError (''No MCP client found for session: '' @ sessionId))
      | Some session \<Rightarrow>
          (case client_callTool of
             Inl e \<Rightarrow> Inl e
           | Inr result \<Rightarrow>
               (case (imageHandler config, getCurrentUserId config, get_member result ''content'') of
                  (Some handler, Some currentUserId, JArray items) \<Rightarrow>
                    if hasImages items then
                      (case currentUserId of
                         Some userId \<Rightarrow>
                           if userId \<noteq> [] then
                             (case initialize handler of
                                Some e \<Rightarrow> Inl e
                              | None \<Rightarrow>
                                  (case processToolResult handler of
                                     Inl e \<Rightarrow> Inl e
                                   | Inr p \<Rightarrow> Inr (with_processed result p)))
                           else Inr result
                       | None \<Rightarrow> Inr result)
                    else Inr result
                | _ \<Rightarrow> Inr result)))"

section \<open>Tool Adapter Builder (\<^verbatim>\<open>src/core/ToolBuilder.ts\<close>)\<close>

subsection \<open>The state of a turn\<close>

text \<open>
  One call of \<^verbatim>\<open>buildMCPTools\<close> serves one turn. Its closure holds the turn's
  \<^verbatim>\<open>abortSignal\<close> and the map \<^verbatim>\<open>activeToolExecutions\<close> from execution id to
  \<^verbatim>\<open>AbortController\<close>. A controller is an object that the map and the \<^verbatim>\<open>execute\<close> call
  that made it both refer to, so the controllers live in a store of their own:
  \<open>controllers t a\<close> is \<^verbatim>\<open>signal.aborted\<close> of the controller at address \<open>a\<close>, and
  \<open>allocated\<close> counts the controllers made so far. The map is a JavaScript \<^verbatim>\<open>Map\<close>, kept
  in insertion order. Three logs record what the turn asked of the host:
  \<open>mcp_calls\<close> every \<^verbatim>\<open>adapter.mcp.callTool(sessionId, name, args)\<close>,
  \<open>confirmation_requests\<close> every \<^verbatim>\<open>requestConfirmation(streamId, request)\<close>, and
  \<open>args_edited\<close> every call of the \<^verbatim>\<open>onArgsEdited\<close> callback.
\<close>

record 'n ConfirmationRequest =
  type :: string
  data :: "(string \<times> 'n json) list"

record 'n turn =
  aborted :: bool
  controllers :: "nat \<Rightarrow> bool"
  allocated :: nat
  activeToolExecutions :: "(string \<times> nat) list"
  mcp_calls :: "(string \<times> string \<times> 'n json) list"
  confirmation_requests :: "(string \<times> 'n ConfirmationRequest) list"
  args_edited :: "(string \<times> 'n json \<times> bool) list"

definition new_turn :: "'n turn" where
  "new_turn = \<lparr>aborted = False, controllers = (\<lambda>a. False), allocated = 0,
               activeToolExecutions = [], mcp_calls = [], confirmation_requests = [],
               args_edited = []\<rparr>"

text \<open>
  The listener \<^verbatim>\<open>buildMCPTools\<close> registers for the \<^verbatim>\<open>abort\<close> event: it aborts every
  controller in the map, in order, and clears the map.
\<close>

definition abort_listener :: "'n turn \<Rightarrow> 'n turn" where
  "abort_listener t =
     t\<lparr>controllers :=
          foldl (\<lambda>cs (toolExecutionId, controller). cs(controller := True))
            (controllers t) (activeToolExecutions t),
       activeToolExecutions := []\<rparr>"

text \<open>
  \<^verbatim>\<open>abortController.abort()\<close> on the turn's controller (\<^verbatim>\<open>ChatEngine\<close> calls it): the
  first call sets \<^verbatim>\<open>abortSignal.aborted\<close> and runs the listener, synchronously; a signal
  that is aborted already fires no event.
\<close>

definition abort :: "'n turn \<Rightarrow> 'n turn" where
  "abort t = (if aborted t then t else abort_listener (t\<lparr>aborted := True\<rparr>))"

subsection \<open>The host\<close>

text \<open>
  What \<^verbatim>\<open>buildMCPTools\<close> is given for the turn (\<^verbatim>\<open>BuildToolsOptions\<close>), as far as
  \<^verbatim>\<open>execute\<close> reads it: \<open>isInteractive\<close> is what \<^verbatim>\<open>adapter.confirmations.isInteractive()\<close>
  answers, \<open>onArgsEdited\<close> whether the callback was given, and \<open>parser\<close> is the runtime's
  \<^verbatim>\<open>JSON.parse\<close>. A tool is an \<^verbatim>\<open>MCPTool\<close> the session listed.
\<close>

record 'n options =
  sessionId :: string
  streamId :: string
  modelId :: string
  isInteractive :: bool
  onArgsEdited :: bool
  parser :: "'n json_parser"

record 'n MCPTool =
  toolName :: string
  inputSchema :: "'n json"

text \<open>\<^verbatim>\<open>isChatGPTModel\<close> of \<^verbatim>\<open>src/utils/models.ts\<close>.\<close>

definition isChatGPTModel :: "string \<Rightarrow> bool" where
  "isChatGPTModel m \<longleftrightarrow> startsWith m ''gpt-'' \<or> startsWith m ''openai/gpt-''"

text \<open>\<^verbatim>\<open>mcpTool.inputSchema || {type: "object", properties: {}}\<close>\<close>

definition toolSchema :: "('n::zero) MCPTool \<Rightarrow> 'n json" where
  "toolSchema tool =
     (if truthy (inputSchema tool) then inputSchema tool
      else JObject [(''type'', JString ''object''), (''properties'', JObject [])])"

text \<open>
  What the host answers to the two awaited requests of one call: \<open>requestConfirmation\<close>
  resolves to a \<^verbatim>\<open>ConfirmationResult\<close> or rejects, and \<open>mcp_callTool\<close> is the answer of
  \<^verbatim>\<open>adapter.mcp.callTool\<close>.
\<close>

record 'n ConfirmationResult =
  allowed :: bool
  reason :: "string option"
  editedConfig :: "'n json"
  wasEdited :: "bool option"

record 'n answers =
  requestConfirmation :: "thrown + 'n ConfirmationResult"
  mcp_callTool :: "thrown + 'n json"

subsection \<open>\<^verbatim>\<open>checkToolConfirmation\<close>\<close>

text \<open>
  Reading a member of \<^verbatim>\<open>null\<close> or \<^verbatim>\<open>undefined\<close> throws a \<^verbatim>\<open>TypeError\<close>; the function
  is \<^verbatim>\<open>async\<close>, so the error is the rejection of its promise.
\<close>

definition cannot_read :: "'n json \<Rightarrow> string \<Rightarrow> thrown" where
  "cannot_read v name =
     JsError (''Cannot read properties of '' @ (if v = JNull then ''null'' else ''undefined'')
              @ '' (reading '' @ [CHR 0x27] @ name @ [CHR 0x27] @ '')'')"

definition checkToolConfirmation ::
  "string \<Rightarrow> 'n json \<Rightarrow> thrown + 'n ConfirmationRequest option" where
  "checkToolConfirmation name params =
     (if name = ''install_server'' \<or> name = ''install_mcp_server'' then
        (if params = JNull \<or> params = JUndefined then Inl (cannot_read params ''server_id'')
         else Inr (Some \<lparr>type = ''install'',
                data = [(''serverId'', get_member params ''server_id''),
                        (''serverName'', get_member params ''server_name''),
                        (''config'', get_member params ''config'')]\<rparr>))
      else if name = ''uninstall_server'' \<or> name = ''uninstall_mcp_server'' then
        (if params = JNull \<or> params = JUndefined then Inl (cannot_read params ''server_id'')
         else Inr (Some \<lparr>type = ''uninstall'',
                data = [(''serverId'', get_member params ''server_id''),
                        (''serverName'', get_member params ''server_name'')]\<rparr>))
      else if name = ''save_playbook'' then
        (if params = JNull \<or> params = JUndefined then Inl (cannot_read params ''playbook_name'')
         else Inr (Some \<lparr>type = ''save-playbook'',
                data = [(''playbookName'', get_member params ''playbook_name''),
                        (''description'', get_member params ''description''),
                        (''actions'', get_member params ''actions''),
                        (''privacy'', get_member params ''privacy'')]\<rparr>))
      else if name = ''submit_feedback'' then
        (if params = JNull \<or> params = JUndefined then Inl (cannot_read params ''vote'')
         else Inr (Some \<lparr>type = ''submit-feedback'',
                data = [(''vote'', get_member params ''vote''),
                        (''message'', get_member params ''message'')]\<rparr>))
      else Inr None)"

subsection \<open>\<^verbatim>\<open>execute\<close>, from one await to the next\<close>

text \<open>
  \<^verbatim>\<open>execute\<close> yields control at three awaits: on \<^verbatim>\<open>checkToolConfirmation\<close>, on
  \<^verbatim>\<open>requestConfirmation\<close> and on \<^verbatim>\<open>adapter.mcp.callTool\<close>. Between two awaits it runs
  without interruption. The model has one function for each such stretch; a stretch ends
  with the call finished (it returned a result or threw) or suspended at the next await.
  A suspended call keeps its locals: the execution id and its controller, and what the
  continuation still reads.
\<close>

record call =
  toolExecutionId :: string
  toolAbortController :: nat

datatype 'n pending =
    CheckToolConfirmation "'n json"
  | RequestConfirmation "'n json" string
  | McpCallTool

datatype 'n outcome = Returns "'n json" | Throws thrown

datatype 'n progress = Finished "'n outcome" | Suspended call "'n pending"

definition finished :: "'n outcome \<times> 'n turn \<Rightarrow> 'n progress \<times> 'n turn" where
  "finished r = (Finished (fst r), snd r)"

text \<open>\<^verbatim>\<open>error?.message\<close> and \<^verbatim>\<open>error instanceof Error ? error.message : String(error)\<close>\<close>

definition message_of :: "thrown \<Rightarrow> string option" where
  "message_of e = (case e of JsError m \<Rightarrow> Some m | JsOther m _ \<Rightarrow> m)"

definition message_or_string :: "thrown \<Rightarrow> string" where
  "message_or_string e = (case e of JsError m \<Rightarrow> m | JsOther _ s \<Rightarrow> s)"

definition text_result :: "string \<Rightarrow> 'n json" where
  "text_result s = JArray [JObject [(''type'', JString ''text''), (''text'', JString s)]]"

text \<open>The result returned when the confirmation is denied.\<close>

definition denial_result :: "'n ConfirmationResult \<Rightarrow> 'n json" where
  "denial_result result =
     JObject [(''content'', text_result (''Operation cancelled: '' @
        (case reason result of
           Some r \<Rightarrow> if r \<noteq> [] then r else ''User denied the operation''
         | None \<Rightarrow> ''User denied the operation'')))]"

text \<open>The \<^verbatim>\<open>catch\<close> block of \<^verbatim>\<open>execute\<close>.\<close>

definition catch_block :: "call \<Rightarrow> thrown \<Rightarrow> 'n turn \<Rightarrow> 'n outcome \<times> 'n turn" where
  "catch_block c e t =
     (let t1 = t\<lparr>activeToolExecutions :=
                   AList.delete (toolExecutionId c) (activeToolExecutions t)\<rparr>
      in if controllers t1 (toolAbortController c) \<or> aborted t1
            \<or> message_of e = Some ''Tool execution cancelled''
         then (Throws (JsError ''Tool execution cancelled''), t1)
         else (Returns (JObject [(''isError'', JBool True),
                 (''content'', text_result (''Tool execution failed: '' @ message_or_string e))]),
               t1))"

text \<open>
  From the check before the MCP call to the await on \<^verbatim>\<open>adapter.mcp.callTool\<close>, and what
  follows when that call has answered.
\<close>

definition dispatch ::
  "'n options \<Rightarrow> 'n MCPTool \<Rightarrow> call \<Rightarrow> 'n json \<Rightarrow> 'n turn \<Rightarrow> 'n progress \<times> 'n turn" where
  "dispatch opts tool c finalParams t =
     (if controllers t (toolAbortController c)
      then finished (catch_block c (JsError ''Tool execution cancelled'') t)
      else (Suspended c McpCallTool,
            t\<lparr>mcp_calls := mcp_calls t @ [(sessionId opts, toolName tool, finalParams)]\<rparr>))"

definition settle_callTool :: "call \<Rightarrow> thrown + 'n json \<Rightarrow> 'n turn \<Rightarrow> 'n outcome \<times> 'n turn" where
  "settle_callTool c answer t =
     (case answer of
        Inr result \<Rightarrow> (Returns result, t)
      | Inl e \<Rightarrow> catch_block c e t)"

text \<open>
  What follows when \<^verbatim>\<open>requestConfirmation\<close> has answered. A rejection is caught by the
  inner \<^verbatim>\<open>catch\<close>, which throws on to the outer one.
  \<^verbatim>\<open>finalParams = { ...sanitizedParams }\<close> copies the own properties.
\<close>

definition settle_confirmation ::
  "'n options \<Rightarrow> 'n MCPTool \<Rightarrow> call \<Rightarrow> ('n::zero) json \<Rightarrow> string
   \<Rightarrow> thrown + 'n ConfirmationResult \<Rightarrow> 'n turn \<Rightarrow> 'n progress \<times> 'n turn" where
  "settle_confirmation opts tool c sanitizedParams request_type answer t =
     (case answer of
        Inl confirmationError \<Rightarrow>
          finished (catch_block c
            (if message_of confirmationError = Some ''Stream cancelled by user''
             then JsError ''Tool execution cancelled'' else confirmationError) t)
      | Inr result \<Rightarrow>
          if \<not> allowed result then (Finished (Returns (denial_result result)), t)
          else if truthy (editedConfig result) then
            (let finalParams =
                   JObject (if request_type = ''install''
                            then AList.update ''config'' (editedConfig result) (entries sanitizedParams)
                            else entries sanitizedParams);
                 t1 = (if onArgsEdited opts
                       then t\<lparr>args_edited := args_edited t @
                                [(toolName tool, finalParams, wasEdited result = Some True)]\<rparr>
                       else t)
             in dispatch opts tool c finalParams t1)
          else dispatch opts tool c sanitizedParams t)"

text \<open>What follows when \<^verbatim>\<open>checkToolConfirmation\<close> has answered.\<close>

definition settle_check ::
  "'n options \<Rightarrow> 'n MCPTool \<Rightarrow> call \<Rightarrow> ('n::zero) json \<Rightarrow> 'n turn \<Rightarrow> 'n progress \<times> 'n turn" where
  "settle_check opts tool c sanitizedParams t =
     (case checkToolConfirmation (toolName tool) sanitizedParams of
        Inl e \<Rightarrow> finished (catch_block c e t)
      | Inr None \<Rightarrow> dispatch opts tool c sanitizedParams t
      | Inr (Some confirmationRequest) \<Rightarrow>
          (Suspended c (RequestConfirmation sanitizedParams (type confirmationRequest)),
           t\<lparr>confirmation_requests :=
                confirmation_requests t @ [(streamId opts, confirmationRequest)]\<rparr>))"

text \<open>
  The \<^verbatim>\<open>args\<close> to \<^verbatim>\<open>arguments\<close> workaround and the sanitizing, that is, the
  \<^verbatim>\<open>sanitizedParams\<close> of a call.
\<close>

definition normalize_call_tool :: "('n::zero) options \<Rightarrow> 'n MCPTool \<Rightarrow> 'n json \<Rightarrow> 'n json" where
  "normalize_call_tool opts tool params =
     (if toolName tool = ''call_tool'' \<and> isChatGPTModel (modelId opts)
         \<and> truthy (get_member params ''args'') \<and> \<not> truthy (get_member params ''arguments'')
      then JObject (AList.update ''arguments'' (get_member params ''args'')
                     (AList.delete ''args'' (entries params)))
      else params)"

definition sanitizedParams :: "('n::zero) options \<Rightarrow> 'n MCPTool \<Rightarrow> 'n json \<Rightarrow> 'n json" where
  "sanitizedParams opts tool params =
     deepSanitizeParams (parser opts) (normalize_call_tool opts tool params) (toolSchema tool) None"

text \<open>
  The start of \<^verbatim>\<open>execute(params)\<close>, up to its first await; \<open>now\<close> is what
  \<^verbatim>\<open>Date.now()\<close> returns.
\<close>

definition execute_begin ::
  "('n::zero) options \<Rightarrow> 'n MCPTool \<Rightarrow> 'n json \<Rightarrow> nat \<Rightarrow> 'n turn \<Rightarrow> 'n progress \<times> 'n turn" where
  "execute_begin opts tool params now t =
     (let c = \<lparr>toolExecutionId = toolName tool @ ''-'' @ decimal now,
               toolAbortController = allocated t\<rparr>;
          t1 = t\<lparr>controllers := (controllers t)(allocated t := False),
                 allocated := Suc (allocated t),
                 activeToolExecutions :=
                   AList.update (toolExecutionId c) (toolAbortController c) (activeToolExecutions t)\<rparr>
      in if aborted t1
         then (Finished (Throws (JsError ''Stream cancelled'')),
               t1\<lparr>activeToolExecutions :=
                    AList.delete (toolExecutionId c) (activeToolExecutions t1)\<rparr>)
         else if controllers t1 (toolAbortController c)
         then finished (catch_block c (JsError ''Tool execution cancelled'') t1)
         else if isInteractive opts
         then (Suspended c (CheckToolConfirmation (sanitizedParams opts tool params)), t1)
         else dispatch opts tool c (sanitizedParams opts tool params) t1)"

text \<open>A suspended call goes on when the awaited answer arrives.\<close>

definition resume ::
  "('n::zero) options \<Rightarrow> 'n MCPTool \<Rightarrow> call \<Rightarrow> 'n pending \<Rightarrow> 'n answers \<Rightarrow> 'n turn
   \<Rightarrow> 'n progress \<times> 'n turn" where
  "resume opts tool c p ans t =
     (case p of
        CheckToolConfirmation sanitized \<Rightarrow> settle_check opts tool c sanitized t
      | RequestConfirmation sanitized request_type \<Rightarrow>
          settle_confirmation opts tool c sanitized request_type (requestConfirmation ans) t
      | McpCallTool \<Rightarrow> finished (settle_callTool c (mcp_callTool ans) t))"

subsection \<open>One call, from start to end\<close>

text \<open>
  A call run from its start to its end, with nothing else going on in the turn except
  that the turn's \<^verbatim>\<open>abort()\<close> may be called while the call waits: the schedule says at
  which of the three awaits that happens.
\<close>

record schedule =
  abort_while_checking :: bool
  abort_while_confirming :: bool
  abort_while_calling :: bool

definition fires :: "schedule \<Rightarrow> 'n pending \<Rightarrow> bool" where
  "fires sch p =
     (case p of
        CheckToolConfirmation _ \<Rightarrow> abort_while_checking sch
      | RequestConfirmation _ _ \<Rightarrow> abort_while_confirming sch
      | McpCallTool \<Rightarrow> abort_while_calling sch)"

definition continue ::
  "('n::zero) options \<Rightarrow> 'n MCPTool \<Rightarrow> 'n answers \<Rightarrow> schedule
   \<Rightarrow> 'n progress \<times> 'n turn \<Rightarrow> 'n progress \<times> 'n turn" where
  "continue opts tool ans sch pt =
     (case pt of
        (Finished out, t) \<Rightarrow> (Finished out, t)
      | (Suspended c p, t) \<Rightarrow> resume opts tool c p ans (if fires sch p then abort t else t))"

definition execute ::
  "('n::zero) options \<Rightarrow> 'n MCPTool \<Rightarrow> 'n answers \<Rightarrow> schedule \<Rightarrow> 'n json \<Rightarrow> nat \<Rightarrow> 'n turn
   \<Rightarrow> 'n progress \<times> 'n turn" where
  "execute opts tool ans sch params now t =
     continue opts tool ans sch
       (continue opts tool ans sch
         (continue opts tool ans sch (execute_begin opts tool params now t)))"

text \<open>How many awaits a call may still have before it.\<close>

fun awaits_left :: "'n progress \<Rightarrow> nat" where
  "awaits_left (Finished out) = 0"
| "awaits_left (Suspended c (CheckToolConfirmation s)) = 3"
| "awaits_left (Suspended c (RequestConfirmation s ty)) = 2"
| "awaits_left (Suspended c McpCallTool) = 1"

text \<open>
  A controller that the turn's cancellation has reached: the turn's signal is aborted
  and so is the controller.
\<close>

definition cancelled :: "'n turn \<Rightarrow> nat \<Rightarrow> bool" where
  "cancelled t a \<longleftrightarrow> aborted t \<and> controllers t a \<and> a < allocated t"

subsection \<open>A host for concrete runs\<close>

text \<open>
  A session \<^verbatim>\<open>s1\<close> with two tools: \<^verbatim>\<open>install_server\<close>, which the confirmation table
  knows, and \<^verbatim>\<open>search_servers\<close>, which it does not.
\<close>

definition sample_options :: "bool \<Rightarrow> int options" where
  "sample_options interactive =
     \<lparr>sessionId = ''s1'', streamId = ''t1'', modelId = ''claude-sonnet'',
      isInteractive = interactive, onArgsEdited = False, parser = sample_parser\<rparr>"

definition install_server :: "int MCPTool" where
  "install_server =
     \<lparr>toolName = ''install_server'',
      inputSchema = JObject [(''type'', JString ''object''),
        (''properties'', JObject [(''server_id'', JObject [(''type'', JString ''string'')])])]\<rparr>"

definition search_servers :: "int MCPTool" where
  "search_servers = \<lparr>toolName = ''search_servers'', inputSchema = JUndefined\<rparr>"

definition found :: "int json" where
  "found = JObject [(''content'', text_result ''weather-server'')]"

definition allow :: "int ConfirmationResult" where
  "allow = \<lparr>allowed = True, reason = None, editedConfig = JUndefined, wasEdited = None\<rparr>"

definition deny :: "int ConfirmationResult" where
  "deny = \<lparr>allowed = False, reason = None, editedConfig = JUndefined, wasEdited = None\<rparr>"

definition no_abort :: schedule where
  "no_abort = \<lparr>abort_while_checking = False, abort_while_confirming = False,
               abort_while_calling = False\<rparr>"

text \<open>
  A turn with two calls in flight: \<^verbatim>\<open>install_server\<close>, started at time 1, waits for its
  confirmation; \<^verbatim>\<open>search_servers\<close>, started at time 2, waits for its dispatch.
\<close>

definition two_in_flight :: "int turn" where
  "two_in_flight =
     \<lparr>aborted = False, controllers = (\<lambda>a. False), allocated = 2,
      activeToolExecutions = [(''install_server-1'', 0), (''search_servers-2'', 1)],
      mcp_calls = [(''s1'', ''search_servers'', JObject [(''query'', JString ''weather'')])],
      confirmation_requests = [(''t1'', \<lparr>type = ''install'',
         data = [(''serverId'', JString ''weather''), (''serverName'', JUndefined),
                 (''config'', JUndefined)]\<rparr>)],
      args_edited = []\<rparr>"

section \<open>Properties of the JavaScript values\<close>

lemma sample_parse_size: "sample_parse t = Some v \<Longrightarrow> jsize v \<le> length t"
  by (auto simp: sample_parse_def split: if_splits)

lemma JSON_parse_sample: "JSON_parse sample_parser t = sample_parse t"
  by (simp add: JSON_parse_def sample_parser_def Abs_json_parser_inverse sample_parse_size)

lemma update_subset: "set (AList.update k v al) \<subseteq> insert (k, v) (set al)"
  by (induction al) auto

lemma update_fresh: "k \<notin> fst ` set al \<Longrightarrow> AList.update k v al = al @ [(k, v)]"
  by (induction al) auto

lemma assign_subset: "set (foldl assign acc es) \<subseteq> set acc \<union> set es"
proof (induction es arbitrary: acc)
  case Nil
  show ?case by simp
next
  case (Cons e es)
  have "set (assign acc e) \<subseteq> set acc \<union> {e}"
    using update_subset [of "fst e" "snd e" acc] by (auto simp: assign_def)
  with Cons [of "assign acc e"] show ?case by auto
qed

lemma assign_distinct:
  "distinct (map fst acc) \<Longrightarrow> distinct (map fst (foldl assign acc es))"
  by (induction es arbitrary: acc) (simp_all add: assign_def distinct_update)

lemma assign_no_proto:
  "''__proto__'' \<notin> fst ` set acc \<Longrightarrow> ''__proto__'' \<notin> fst ` set (foldl assign acc es)"
proof (induction es arbitrary: acc)
  case Nil
  then show ?case by simp
next
  case (Cons e es)
  have "''__proto__'' \<notin> fst ` set (assign acc e)"
    using Cons.prems by (simp add: assign_def dom_update)
  then show ?case using Cons.IH by simp
qed

text \<open>Assigning entries with fresh, distinct keys to an object appends them in order.\<close>

lemma assign_fresh:
  "distinct (map fst (acc @ es)) \<Longrightarrow> ''__proto__'' \<notin> fst ` set es
   \<Longrightarrow> foldl assign acc es = acc @ es"
proof (induction es arbitrary: acc)
  case Nil
  show ?case by simp
next
  case (Cons e es)
  have fresh: "fst e \<notin> fst ` set acc" and np: "fst e \<noteq> ''__proto__''"
    using Cons.prems by auto
  have "assign acc e = acc @ [e]"
    using fresh np by (simp add: assign_def update_fresh)
  then show ?case using Cons.IH [of "acc @ [e]"] Cons.prems by simp
qed

text \<open>
  An object built by assignments is rebuilt unchanged by a second pass whose per-entry
  function leaves the entries of the first pass alone.
\<close>

lemma assign_rebuild:
  assumes "\<And>e. e \<in> set es \<Longrightarrow> g e = e"
  shows "foldl assign [] (map g (foldl assign [] es)) = foldl assign [] es"
proof -
  let ?R = "foldl assign [] es"
  have sub: "set ?R \<subseteq> set es" using assign_subset [of "[]" es] by simp
  have "map g ?R = ?R" by (rule map_idI) (use sub assms in blast)
  moreover have "foldl assign [] ?R = [] @ ?R"
    by (rule assign_fresh) (use assign_distinct [of "[]" es] assign_no_proto [of "[]" es] in simp_all)
  ultimately show ?thesis by simp
qed

section \<open>Properties of argument normalization\<close>

text \<open>
  Claim C5. Argument normalization is idempotent: for every value \<open>x\<close>, every schema \<open>s\<close>
  and every field name, normalizing the normalized value again, against the same schema
  and field name, gives the normalized value. It holds for every \<^verbatim>\<open>JSON.parse\<close>.
\<close>

theorem deepSanitizeParams_idempotent:
  "deepSanitizeParams P (deepSanitizeParams P x s f) s f = deepSanitizeParams P x s f"
proof (induction P x s f rule: deepSanitizeParams.induct)
  case (1 P params schema fieldName)
  show ?case
  proof (cases params)
    case (JString t)
    show ?thesis
    proof (cases "JSON_parse P t")
      case None
      then show ?thesis using JString
        by (simp add: deepSanitizeParams.simps [of P "JString t"])
    next
      case (Some parsed)
      then show ?thesis using JString "1.IH"(1,2) [of t parsed]
        by (simp add: deepSanitizeParams.simps [of P "JString t"])
    qed
  next
    case (JArray xs)
    have "map (\<lambda>item. deepSanitizeParams P
                 (deepSanitizeParams P item (get_member schema ''items'') fieldName)
                 (get_member schema ''items'') fieldName) xs
          = map (\<lambda>item. deepSanitizeParams P item (get_member schema ''items'') fieldName) xs"
      using "1.IH"(3) [OF JArray] by simp
    then show ?thesis using JArray
      by (simp add: deepSanitizeParams.simps [of P "JArray _"] comp_def)
  next
    case (JObject kvs)
    define props where "props = (if truthy (get_member schema ''properties'')
                                 then get_member schema ''properties'' else JObject [])"
    define g where
      "g = (\<lambda>(key, val). (key, deepSanitizeParams P val (get_index props key) (Some key)))"
    have "g e = e" if "e \<in> set (map g kvs)" for e
    proof -
      from that obtain k v where kv: "(k, v) \<in> set kvs" and e: "e = g (k, v)" by auto
      show ?thesis using "1.IH"(4) [OF JObject props_def kv refl] by (simp add: e g_def)
    qed
    then have "foldl assign [] (map g (foldl assign [] (map g kvs))) = foldl assign [] (map g kvs)"
      by (rule assign_rebuild)
    then show ?thesis using JObject
      by (simp add: deepSanitizeParams.simps [of P "JObject _"] props_def g_def)
  qed (simp_all add: deepSanitizeParams.simps)
qed

theorem deepSanitizeParams_idempotent_witness:
  \<open>deepSanitizeParams sample_parser
      (deepSanitizeParams sample_parser
         (JObject [(''arguments'', JString ''{"a":1}''), (''n'', JNumber 2)]) JUndefined None)
      JUndefined None
    = deepSanitizeParams sample_parser
         (JObject [(''arguments'', JString ''{"a":1}''), (''n'', JNumber 2)]) JUndefined None
   \<and> deepSanitizeParams sample_parser
         (JObject [(''arguments'', JString ''{"a":1}''), (''n'', JNumber 2)]) JUndefined None
    = JObject [(''arguments'', JObject [(''a'', JNumber 1)]), (''n'', JNumber 2)]\<close>
  using deepSanitizeParams_idempotent [of sample_parser
      "JObject [(''arguments'', JString ''{\"a\":1}''), (''n'', JNumber 2)]" JUndefined None]
  by (simp add: deepSanitizeParams.simps get_member_def own_property_def trim_def startsWith_def is_white_space_def
      JSON_parse_sample sample_parse_def truthy_def get_index_def assign_def)

text \<open>
  Claim C6. A string value whose governing schema node declares type \<^verbatim>\<open>"string"\<close> is
  returned unchanged by argument normalization, whatever the string holds (JSON-looking
  text included), whatever the field is called (\<^verbatim>\<open>arguments\<close> included) and whatever
  \<^verbatim>\<open>JSON.parse\<close> would make of it.
\<close>

theorem string_typed_never_reparsed:
  "get_member schema ''type'' = JString ''string''
   \<Longrightarrow> deepSanitizeParams P (JString t) schema fieldName = JString t"
  by (simp add: deepSanitizeParams.simps [of P "JString t"])

text \<open>
  At the text \<^verbatim>\<open>{"a":1}\<close> in a field named \<^verbatim>\<open>arguments\<close>: unchanged under a schema
  of type string, reparsed under a schema of type object.
\<close>

theorem string_typed_never_reparsed_witness:
  \<open>get_member (JObject [(''type'', JString ''string'')] :: int json) ''type'' = JString ''string''
   \<and> deepSanitizeParams sample_parser (JString ''{"a":1}'')
        (JObject [(''type'', JString ''string'')]) (Some ''arguments'') = JString ''{"a":1}''
   \<and> deepSanitizeParams sample_parser (JString ''{"a":1}'')
        (JObject [(''type'', JString ''object'')]) (Some ''arguments'') = JObject [(''a'', JNumber 1)]\<close>
proof -
  have h: "get_member (JObject [(''type'', JString ''string'')] :: int json) ''type''
           = JString ''string''"
    by (simp add: get_member_def own_property_def)
  show ?thesis
    using h string_typed_never_reparsed [OF h, of sample_parser "''{\"a\":1}''" "Some ''arguments''"]
    by (simp add: deepSanitizeParams.simps get_member_def own_property_def trim_def startsWith_def is_white_space_def
      JSON_parse_sample sample_parse_def truthy_def get_index_def assign_def)
qed

section \<open>Properties of schema cleaning\<close>

text \<open>When every step returns, so does the whole run, and the results match the inputs.\<close>

lemma collect_map:
  assumes "\<And>x. x \<in> set xs \<Longrightarrow> \<exists>y. f x = Inr y \<and> Q x y"
  shows "\<exists>ys. collect (map f xs) = Inr ys \<and> list_all2 Q xs ys"
  using assms
proof (induction xs)
  case Nil
  show ?case by simp
next
  case (Cons x xs)
  from Cons.prems [of x] obtain y where y: "f x = Inr y" "Q x y" by auto
  from Cons.IH Cons.prems obtain ys where ys: "collect (map f xs) = Inr ys" "list_all2 Q xs ys"
    by auto
  show ?case using y ys by simp
qed

text \<open>Reading an own property of an object built by assignments.\<close>

lemma map_of_rev_distinct: "distinct (map fst xs) \<Longrightarrow> map_of (rev xs) k = map_of xs k"
proof (induction xs)
  case Nil
  show ?case by simp
next
  case (Cons x xs)
  have none: "map_of xs (fst x) = None"
    using Cons.prems by (simp add: map_of_eq_None_iff)
  have "map_of (rev (x # xs)) k
        = (case map_of (rev xs) k of None \<Rightarrow> map_of [x] k | Some v \<Rightarrow> Some v)"
    by (cases x) (simp add: map_add_def split: option.splits)
  also have "\<dots> = (case map_of xs k of None \<Rightarrow> map_of [x] k | Some v \<Rightarrow> Some v)"
    using Cons by simp
  also have "\<dots> = map_of (x # xs) k"
    using none by (cases x) (auto split: option.splits)
  finally show ?case .
qed

lemma map_of_assign_one:
  "k \<noteq> ''__proto__'' \<Longrightarrow>
   map_of (assign acc e) k = (case map_of [e] k of Some v \<Rightarrow> Some v | None \<Rightarrow> map_of acc k)"
  by (cases e) (auto simp: assign_def update_conv')

lemma map_of_assign:
  "k \<noteq> ''__proto__'' \<Longrightarrow>
   map_of (foldl assign acc es) k = (case map_of (rev es) k of Some v \<Rightarrow> Some v | None \<Rightarrow> map_of acc k)"
proof (induction es arbitrary: acc)
  case Nil
  show ?case by simp
next
  case (Cons e es)
  have "map_of (foldl assign acc (e # es)) k
        = (case map_of (rev es) k of Some v \<Rightarrow> Some v | None \<Rightarrow> map_of (assign acc e) k)"
    using Cons.IH [OF Cons.prems, of "assign acc e"] by simp
  also have "\<dots> = (case map_of (rev (e # es)) k of Some v \<Rightarrow> Some v | None \<Rightarrow> map_of acc k)"
    by (simp add: map_of_assign_one [OF Cons.prems] map_add_def split: option.splits)
  finally show ?case .
qed

lemma own_property_assign:
  "k \<noteq> ''__proto__'' \<Longrightarrow> own_property (foldl assign [] es) k = own_property es k"
  using map_of_assign [of k "[]" es] assign_distinct [of "[]" es]
  by (simp add: own_property_def map_of_rev_distinct split: option.splits)

lemma keys_assign: "fst ` set (foldl assign [] es) \<subseteq> fst ` set es"
  using assign_subset [of "[]" es] by auto

lemma own_property_filter:
  "(\<And>v. p (k, v)) \<Longrightarrow> own_property (filter p xs) k = own_property xs k"
proof -
  assume p: "\<And>v. p (k, v)"
  have "map_of (filter p ys) k = map_of ys k" for ys
    by (induction ys) (auto simp: p)
  from this [of "rev xs"] show ?thesis by (simp add: own_property_def rev_filter)
qed

lemma own_property_key: "own_property kvs k \<noteq> JUndefined \<Longrightarrow> k \<in> fst ` set kvs"
  by (auto simp: own_property_def split: option.splits dest!: map_of_SomeD intro: rev_image_eqI)


lemma entry_ok_keys: "list_all2 entry_ok xs es \<Longrightarrow> map fst es = map fst xs"
  by (induction rule: list_all2_induct) (simp_all add: entry_ok_def)

lemma entry_ok_primitive:
  "list_all2 entry_ok xs es \<Longrightarrow> map_of xs k = Some v \<Longrightarrow> \<not> is_object_type v
   \<Longrightarrow> map_of es k = Some v"
proof (induction rule: list_all2_induct)
  case Nil
  then show ?case by simp
next
  case (Cons x xs e es)
  then show ?case by (cases x; cases e) (auto simp: entry_ok_def split: if_splits)
qed

lemma entry_ok_own_property:
  assumes "list_all2 entry_ok xs es" and "own_property xs k = JString t"
  shows "own_property es k = JString t"
proof -
  have "map_of (rev xs) k = Some (JString t)"
    using assms(2) by (simp add: own_property_def split: option.splits)
  moreover have "list_all2 entry_ok (rev xs) (rev es)"
    using assms(1) by simp
  ultimately have "map_of (rev es) k = Some (JString t)"
    using entry_ok_primitive [of "rev xs" "rev es" k "JString t"] by (simp add: is_object_type_def)
  then show ?thesis by (simp add: own_property_def)
qed

lemma entry_ok_values: "list_all2 entry_ok xs es \<Longrightarrow> e \<in> set es \<Longrightarrow> value_ok e"
  by (induction rule: list_all2_induct) (auto simp: entry_ok_def)

lemma restricted_JObject:
  "restricted (JObject kvs) \<longleftrightarrow> node_ok kvs \<and> (\<forall>e \<in> set kvs. value_ok e)"
  by (simp add: value_ok_def list_all_iff case_prod_beta)

text \<open>
  The object a node is rebuilt into, given that every kept entry was rebuilt well.
\<close>

lemma restricted_result:
  fixes kvs :: "(string \<times> ('n::zero) json) list"
  assumes all2: "list_all2 entry_ok (filter (\<lambda>(key, val). \<not> skipped (JObject kvs) key) kvs) es"
  defines "R \<equiv> foldl assign [] es"
  shows "restricted (JObject
           (if own_property R ''type'' = JString ''object'' \<and> \<not> truthy (own_property R ''properties'')
            then assign R (''properties'', JObject []) else R))"
proof -
  let ?kept = "filter (\<lambda>(key, val). \<not> skipped (JObject kvs) key) kvs"
  have keys: "fst ` set R \<subseteq> fst ` set ?kept"
    using keys_assign [of es] entry_ok_keys [OF all2] unfolding R_def
    by (metis list.set_map)
  have unskipped: "\<not> skipped (JObject kvs) k" if "k \<in> fst ` set R" for k
    using keys that by auto
  have not_banned: "\<not> banned k" if "k \<in> fst ` set R" for k
    using unskipped [OF that] by (auto simp: skipped_def banned_def)
  have enum: "own_property R ''type'' = JString ''string''" if "''enum'' \<in> fst ` set R"
  proof -
    have "own_property kvs ''type'' = JString ''string''"
      using unskipped [OF that] by (simp add: skipped_def get_member_def)
    then have "own_property ?kept ''type'' = JString ''string''"
      by (subst own_property_filter) (simp_all add: skipped_def)
    then have "own_property es ''type'' = JString ''string''"
      by (rule entry_ok_own_property [OF all2])
    then show ?thesis by (simp add: R_def own_property_assign)
  qed
  have vals: "value_ok e" if "e \<in> set R" for e
  proof -
    have "e \<in> set es" using assign_subset [of "[]" es] that unfolding R_def by auto
    then show ?thesis by (rule entry_ok_values [OF all2])
  qed
  show ?thesis
  proof (cases "own_property R ''type'' = JString ''object'' \<and> \<not> truthy (own_property R ''properties'')")
    case False
    have "''properties'' \<in> fst ` set R" if "own_property R ''type'' = JString ''object''"
    proof -
      from that False have "truthy (own_property R ''properties'')" by simp
      then have "own_property R ''properties'' \<noteq> JUndefined" by (auto simp: truthy_def)
      then show ?thesis by (rule own_property_key)
    qed
    moreover have "\<not> banned (fst e)" if "e \<in> set R" for e
      using that not_banned [of "fst e"] by simp
    ultimately have "node_ok R"
      using enum by (auto simp: node_ok_def list_all_iff)
    then have "restricted (JObject R)"
      using vals by (simp add: restricted_JObject del: restricted.simps)
    then show ?thesis unfolding if_not_P [OF False] .
  next
    case True
    let ?R' = "AList.update ''properties'' (JObject []) R"
    have sub: "set ?R' \<subseteq> insert (''properties'', JObject []) (set R)"
      by (rule update_subset)
    have dom: "fst ` set ?R' = {''properties''} \<union> fst ` set R"
      by (rule dom_update)
    have no_enum: "''enum'' \<notin> fst ` set R"
      using enum True by auto
    have "node_ok ?R'"
      unfolding node_ok_def list_all_iff
    proof (intro conjI ballI impI)
      fix e assume "e \<in> set ?R'"
      then have "fst e \<in> fst ` set ?R'" by simp
      then have "\<not> banned (fst e)" using not_banned by (auto simp: dom banned_def)
      then show "case e of (key, val) \<Rightarrow> \<not> banned key" by (simp add: case_prod_beta)
    next
      assume "''enum'' \<in> set (map fst ?R')"
      then show "own_property ?R' ''type'' = JString ''string''"
        using no_enum by (simp add: dom)
    next
      show "''properties'' \<in> set (map fst ?R')" by (simp add: dom)
    qed
    moreover have "value_ok e" if "e \<in> set ?R'" for e
    proof -
      from that sub have "e = (''properties'', JObject []) \<or> e \<in> set R" by auto
      then show ?thesis
      proof
        assume "e = (''properties'', JObject [])"
        then show ?thesis by (simp add: value_ok_def)
      next
        assume "e \<in> set R"
        then show ?thesis by (rule vals)
      qed
    qed
    ultimately have "restricted (JObject (assign R (''properties'', JObject [])))"
      by (simp add: restricted_JObject assign_def del: restricted.simps)
    then show ?thesis unfolding if_P [OF True] .
  qed
qed


lemma no_null_properties_entries:
  "no_null_properties v \<Longrightarrow> (k, w) \<in> set (entries v) \<Longrightarrow> no_null_properties w"
  by (cases v) (auto simp: entries_def list_all_iff dest!: set_zip_rightD)

lemma list_all2_right: "list_all2 (\<lambda>x y. P y) xs ys \<Longrightarrow> list_all P ys"
  by (induction rule: list_all2_induct) simp_all

text \<open>The cleaning pass returns on every schema without a null \<^verbatim>\<open>properties\<close>.\<close>

lemma sanitizeSchemaForGemini_returns:
  fixes schema :: "('n::zero) json"
  shows "no_null_properties schema
         \<Longrightarrow> \<exists>r. sanitizeSchemaForGemini schema = Inr r \<and> restricted r"
proof (induction schema rule: sanitizeSchemaForGemini.induct)
  case (1 schema)
  show ?case
  proof (cases schema)
    case (JArray xs)
    have "\<exists>ys. collect (map sanitizeSchemaForGemini xs) = Inr ys
               \<and> list_all2 (\<lambda>x y. restricted y) xs ys"
    proof (rule collect_map)
      fix x assume "x \<in> set xs"
      then show "\<exists>y. sanitizeSchemaForGemini x = Inr y \<and> restricted y"
        using "1.IH"(1) [OF JArray] "1.prems" JArray by (simp add: list_all_iff)
    qed
    then obtain ys where "collect (map sanitizeSchemaForGemini xs) = Inr ys" "list_all restricted ys"
      by (auto dest: list_all2_right)
    then show ?thesis
      by (simp add: sanitizeSchemaForGemini.simps [of "JArray xs"] JArray)
  next
    case (JObject kvs)
    define f where "f = (\<lambda>(key :: string, val :: 'n json).
                   if key = ''properties'' \<and> is_object_type val then
                     (if val = JNull
                      then Inl (JsError ''Cannot convert undefined or null to object'')
                      else map_sum id (\<lambda>ps. (key, JObject (foldl assign [] ps)))
                             (collect (map (\<lambda>(propName, propValue).
                                         map_sum id (Pair propName) (sanitizeSchemaForGemini propValue))
                                       (entries val))))
                   else if (key = ''items'' \<or> key = ''additionalProperties'') \<and> is_object_type val
                     then map_sum id (Pair key) (sanitizeSchemaForGemini val)
                   else if is_object_type val \<and> val \<noteq> JNull
                     then map_sum id (Pair key) (sanitizeSchemaForGemini val)
                   else Inr (key, val))"
    let ?kept = "filter (\<lambda>(key, val). \<not> skipped schema key) kvs"
    have "\<exists>es. collect (map f ?kept) = Inr es \<and> list_all2 entry_ok ?kept es"
    proof (rule collect_map)
      fix x assume x: "x \<in> set ?kept"
      obtain key val where kv: "x = (key, val)" by (cases x)
      have "(key, val) \<in> set kvs" using x kv by simp
      moreover have "list_all (\<lambda>(key, val). \<not> (key = ''properties'' \<and> val = JNull)
                        \<and> no_null_properties val) kvs"
        using "1.prems" JObject by simp
      ultimately have nn: "no_null_properties val"
        and nonnull: "\<not> (key = ''properties'' \<and> val = JNull)"
        by (auto simp: list_all_iff)
      define A where "A \<longleftrightarrow> key = ''properties'' \<and> is_object_type val"
      define B where "B \<longleftrightarrow> (key = ''items'' \<or> key = ''additionalProperties'') \<and> is_object_type val"
      define C where "C \<longleftrightarrow> is_object_type val \<and> val \<noteq> JNull"
      have "A \<or> (\<not> A \<and> B) \<or> (\<not> A \<and> \<not> B \<and> C) \<or> (\<not> A \<and> \<not> B \<and> \<not> C)"
        by blast
      then consider (props) "key = ''properties''" "is_object_type val"
        | (items) "\<not> (key = ''properties'' \<and> is_object_type val)"
                  "(key = ''items'' \<or> key = ''additionalProperties'') \<and> is_object_type val"
        | (nested) "\<not> (key = ''properties'' \<and> is_object_type val)"
                  "\<not> ((key = ''items'' \<or> key = ''additionalProperties'') \<and> is_object_type val)"
                  "is_object_type val \<and> val \<noteq> JNull"
        | (plain) "\<not> (key = ''properties'' \<and> is_object_type val)"
                  "\<not> ((key = ''items'' \<or> key = ''additionalProperties'') \<and> is_object_type val)"
                  "\<not> (is_object_type val \<and> val \<noteq> JNull)"
        unfolding A_def B_def C_def by metis
      then show "\<exists>e. f x = Inr e \<and> entry_ok x e"
      proof cases
        case props
        have vn: "val \<noteq> JNull" using nonnull props by simp
        have "\<exists>ps. collect (map (\<lambda>(propName, propValue).
                        map_sum id (Pair propName) (sanitizeSchemaForGemini propValue)) (entries val))
                    = Inr ps
                  \<and> list_all2 (\<lambda>x y. restricted (snd y)) (entries val) ps"
        proof (rule collect_map)
          fix p assume p: "p \<in> set (entries val)"
          obtain pn pv where pp: "p = (pn, pv)" by (cases p)
          have "no_null_properties pv"
            using no_null_properties_entries [OF nn] p pp by simp
          moreover have "key = ''properties'' \<and> is_object_type val" using props by simp
          ultimately obtain r where "sanitizeSchemaForGemini pv = Inr r" "restricted r"
            using "1.IH"(2) [OF JObject x kv [symmetric] _ vn p pp [symmetric]] by blast
          then show "\<exists>y. (case p of (propName, propValue) \<Rightarrow>
                            map_sum id (Pair propName) (sanitizeSchemaForGemini propValue)) = Inr y
                         \<and> restricted (snd y)"
            by (simp add: pp)
        qed
        then obtain ps where ps: "collect (map (\<lambda>(propName, propValue).
                        map_sum id (Pair propName) (sanitizeSchemaForGemini propValue)) (entries val))
                    = Inr ps" and all: "list_all (\<lambda>y. restricted (snd y)) ps"
          by (auto dest: list_all2_right)
        have "list_all (\<lambda>(propName, p). restricted p) (foldl assign [] ps)"
          using all assign_subset [of "[]" ps] by (fastforce simp: list_all_iff)
        then show ?thesis
          using props vn ps by (simp add: f_def kv entry_ok_def value_ok_def)
      next
        case items
        obtain r where "sanitizeSchemaForGemini val = Inr r" "restricted r"
          using "1.IH"(3) [OF JObject x kv [symmetric] items] nn by blast
        then show ?thesis
          using items by (simp add: f_def kv entry_ok_def value_ok_def)
      next
        case nested
        obtain r where "sanitizeSchemaForGemini val = Inr r" "restricted r"
          using "1.IH"(4) [OF JObject x kv [symmetric] nested] nn by blast
        then show ?thesis
          using nested by (simp add: f_def kv entry_ok_def value_ok_def)
      next
        case plain
        then have "value_ok (key, val)"
          by (cases val) (simp_all add: is_object_type_def value_ok_def)
        moreover have "f x = Inr (key, val)"
          unfolding f_def kv case_prod_conv
          by (simp only: if_not_P [OF plain(1)] if_not_P [OF plain(2)] if_not_P [OF plain(3)])
        ultimately show ?thesis
          by (simp add: kv entry_ok_def)
      qed
    qed
    then obtain es where es: "collect (map f ?kept) = Inr es" and all2: "list_all2 entry_ok ?kept es"
      by auto
    show ?thesis
      using es restricted_result [OF all2 [unfolded JObject]]
      by (simp add: sanitizeSchemaForGemini.simps [of "JObject kvs"] JObject f_def Let_def
          del: restricted.simps)
  qed (simp_all add: sanitizeSchemaForGemini.simps [of JUndefined]
        sanitizeSchemaForGemini.simps [of JNull] sanitizeSchemaForGemini.simps [of "JBool _"]
        sanitizeSchemaForGemini.simps [of "JNumber _"] sanitizeSchemaForGemini.simps [of "JString _"])
qed


lemmas eval_json = get_member_def own_property_def get_index_def truthy_def assign_def
  is_object_type_def entries_def skipped_def banned_def node_ok_def

text \<open>On a \<^verbatim>\<open>properties\<close> member that is \<^verbatim>\<open>null\<close> the cleaning pass throws.\<close>

lemma sanitizeSchemaForGemini_null_properties:
  "sanitizeSchemaForGemini (JObject [(''type'', JString ''object''), (''properties'', JNull)])
   = (Inl (JsError ''Cannot convert undefined or null to object'') :: thrown + int json)"
  by (simp add: sanitizeSchemaForGemini.simps eval_json)

text \<open>
  Claim C9 as stated: no object anywhere in the output has one of the keys \<^verbatim>\<open>oneOf\<close>,
  \<^verbatim>\<open>anyOf\<close>, \<^verbatim>\<open>allOf\<close>, \<^verbatim>\<open>const\<close>, \<^verbatim>\<open>required\<close>. A tool with a parameter named
  \<^verbatim>\<open>required\<close> refutes it: the names in a \<^verbatim>\<open>properties\<close> map are copied as they are,
  so the schema below is returned unchanged, with the key \<^verbatim>\<open>required\<close> in its
  \<^verbatim>\<open>properties\<close> map.
\<close>

theorem property_named_required_counterexample:
  "sanitizeSchemaForGemini
     (JObject [(''type'', JString ''object''),
               (''properties'', JObject [(''required'', JObject [(''type'', JString ''boolean'')])])])
   = (Inr (JObject [(''type'', JString ''object''),
               (''properties'', JObject [(''required'', JObject [(''type'', JString ''boolean'')])])])
      :: thrown + int json)
   \<and> \<not> restricted_everywhere
        (JObject [(''type'', JString ''object''),
               (''properties'', JObject [(''required'', JObject [(''type'', JString ''boolean'')])])]
         :: int json)"
  by (simp add: sanitizeSchemaForGemini.simps eval_json)

text \<open>
  Claim C9, amended. For every input schema without a \<^verbatim>\<open>__proto__\<close> member and without
  a \<^verbatim>\<open>properties\<close> member that is \<^verbatim>\<open>null\<close>, the cleaning pass returns, and in its
  output every schema node (every object except the maps under a \<^verbatim>\<open>properties\<close> key,
  whose keys are property names) has none of the keys \<^verbatim>\<open>oneOf\<close>, \<^verbatim>\<open>anyOf\<close>,
  \<^verbatim>\<open>allOf\<close>, \<^verbatim>\<open>const\<close>, \<^verbatim>\<open>required\<close>, has an \<^verbatim>\<open>enum\<close> key only when its type is
  \<^verbatim>\<open>"string"\<close>, and has a \<^verbatim>\<open>properties\<close> key when its type is \<^verbatim>\<open>"object"\<close>.
\<close>

theorem sanitizeSchemaForGemini_restricted:
  fixes schema :: "('n::zero) json"
  assumes "proto_free schema" and "no_null_properties schema"
  shows "\<exists>r. sanitizeSchemaForGemini schema = Inr r \<and> restricted r"
  using assms(2) by (rule sanitizeSchemaForGemini_returns)

text \<open>
  A schema with a \<^verbatim>\<open>required\<close> list, a number-typed property carrying \<^verbatim>\<open>enum\<close> and
  \<^verbatim>\<open>const\<close>, and an object-typed property with \<^verbatim>\<open>oneOf\<close> and no \<^verbatim>\<open>properties\<close>.
\<close>

theorem sanitizeSchemaForGemini_restricted_witness:
  "sanitizeSchemaForGemini
     (JObject [(''type'', JString ''object''),
               (''required'', JArray [JString ''n'']),
               (''properties'', JObject
                  [(''n'', JObject [(''type'', JString ''number''), (''enum'', JArray [JNumber 1]),
                                    (''const'', JNumber 1)]),
                   (''o'', JObject [(''type'', JString ''object''),
                                    (''oneOf'', JArray [JObject [(''type'', JString ''string'')]])])])])
   = (Inr (JObject [(''type'', JString ''object''),
               (''properties'', JObject
                  [(''n'', JObject [(''type'', JString ''number'')]),
                   (''o'', JObject [(''type'', JString ''object''), (''properties'', JObject [])])])])
      :: thrown + int json)
   \<and> restricted (JObject [(''type'', JString ''object''),
               (''properties'', JObject
                  [(''n'', JObject [(''type'', JString ''number'')]),
                   (''o'', JObject [(''type'', JString ''object''), (''properties'', JObject [])])])]
        :: int json)"
proof -
  let ?s = "JObject [(''type'', JString ''object''),
               (''required'', JArray [JString ''n'']),
               (''properties'', JObject
                  [(''n'', JObject [(''type'', JString ''number''), (''enum'', JArray [JNumber 1]),
                                    (''const'', JNumber 1)]),
                   (''o'', JObject [(''type'', JString ''object''),
                                    (''oneOf'', JArray [JObject [(''type'', JString ''string'')]])])])]
            :: int json"
  have "proto_free ?s" and "no_null_properties ?s" by simp_all
  then obtain r where r: "sanitizeSchemaForGemini ?s = Inr r" "restricted r"
    using sanitizeSchemaForGemini_restricted [of ?s] by blast
  moreover have "sanitizeSchemaForGemini ?s
    = Inr (JObject [(''type'', JString ''object''),
               (''properties'', JObject
                  [(''n'', JObject [(''type'', JString ''number'')]),
                   (''o'', JObject [(''type'', JString ''object''), (''properties'', JObject [])])])])"
    by (simp add: sanitizeSchemaForGemini.simps eval_json)
  ultimately show ?thesis by (simp del: restricted.simps)
qed


section \<open>Properties of the Session Registry\<close>

lemma destroySession_absent:
  "sessions c sid = None
   \<Longrightarrow> destroySession closeTransport c sid = (\<lparr>success = True, error = None\<rparr>, c)"
  by (simp add: destroySession_def)

lemma destroySession_closed:
  "\<not> hasSession (snd (destroySession None c sid)) sid"
  by (simp add: destroySession_def hasSession_def split: option.splits)

text \<open>
  Claim C2 says that \<^verbatim>\<open>destroySession\<close> removes the entry even when the transport's
  close fails. With a session \<open>7\<close> registered under \<^verbatim>\<open>s\<close> and a \<^verbatim>\<open>closeTransport\<close> that
  rejects, \<^verbatim>\<open>destroySession\<close> reports the failure and leaves the entry where it was:
  \<^verbatim>\<open>sessions.delete\<close> stands after the awaited close inside the \<^verbatim>\<open>try\<close>, and is skipped.
\<close>

theorem destroySession_close_failure_keeps_entry:
  "destroySession (Some (JsError ''socket hang up'')) \<lparr>sessions = [''s'' \<mapsto> 7], closed = []\<rparr> ''s''
     = (\<lparr>success = False, error = Some ''socket hang up''\<rparr>,
        \<lparr>sessions = [''s'' \<mapsto> 7], closed = []\<rparr>)
   \<and> hasSession
        (snd (destroySession (Some (JsError ''socket hang up''))
               \<lparr>sessions = [''s'' \<mapsto> 7], closed = []\<rparr> ''s'')) ''s''"
  by (simp add: destroySession_def message_or_unknown_def hasSession_def)

lemma createSession_success:
  "createSession closeTransport (Inr new) c sid = (r, c')
   \<Longrightarrow> success r \<and> sessions c' sid = Some new
       \<and> (\<forall>k. k \<noteq> sid \<longrightarrow> sessions c' k = sessions c k)"
  by (auto simp: createSession_def destroySession_def Let_def split: option.splits)

lemma createSession_replaces:
  "sessions c sid = Some old
   \<Longrightarrow> createSession None (Inr new) c sid = (r, c')
   \<Longrightarrow> sessions c' sid = Some new \<and> closed c' = closed c @ [old]"
  by (auto simp: createSession_def destroySession_def Let_def)

lemma createSession_failure_after_teardown:
  "createSession None (Inl e) c sid = (r, c') \<Longrightarrow> \<not> success r \<and> sessions c' sid = None"
  by (auto simp: createSession_def destroySession_def Let_def split: option.splits)

text \<open>
  Claim C7 says that a second \<^verbatim>\<open>createSession\<close> that fails at transport creation leaves
  no entry under the key. After a first \<^verbatim>\<open>createSession\<close> has stored session \<open>1\<close> under
  \<^verbatim>\<open>s\<close>, a second one whose teardown close rejects and whose \<^verbatim>\<open>createTransport\<close> rejects
  too reports the failure and leaves session \<open>1\<close>, which was never closed, under the key.
\<close>

theorem createSession_failed_teardown_keeps_first:
  "createSession None (Inr 1) \<lparr>sessions = Map.empty, closed = []\<rparr> ''s''
     = (\<lparr>success = True, error = None\<rparr>, \<lparr>sessions = [''s'' \<mapsto> 1], closed = []\<rparr>)
   \<and> createSession (Some (JsError ''socket hang up'')) (Inl (JsError ''spawn ENOENT''))
        \<lparr>sessions = [''s'' \<mapsto> 1], closed = []\<rparr> ''s''
     = (\<lparr>success = False, error = Some ''spawn ENOENT''\<rparr>,
        \<lparr>sessions = [''s'' \<mapsto> 1], closed = []\<rparr>)"
  by (simp add: createSession_def destroySession_def message_or_unknown_def)

text \<open>
  Claim C8 as stated: when the image handler fails, \<^verbatim>\<open>callTool\<close> still succeeds with the
  raw result. It does not: with a handler whose \<^verbatim>\<open>initialize\<close> rejects, \<^verbatim>\<open>callTool\<close>
  on a result holding an image part rejects with the handler's error.
\<close>

theorem callTool_handler_error_counterexample:
  "callTool
     \<lparr>imageHandler = Some \<lparr>initialize = Some (JsError ''EACCES''),
                            processToolResult = Inl (JsError ''unused'')\<rparr>,
      getCurrentUserId = Some (Some ''u1'')\<rparr>
     (Inr (JObject [(''content'',
             JArray [JObject [(''type'', JString ''image''), (''data'', JString ''iVBOR'')]])]))
     \<lparr>sessions = [''s'' \<mapsto> 1], closed = []\<rparr> ''s''
   = (Inl (JsError ''EACCES'') :: thrown + int json)"
  by (simp add: callTool_def hasImages_def get_member_def own_property_def truthy_def)

text \<open>
  Claim C8, amended. On a live session, with an image handler and a user-id source
  configured, a non-empty user id and a raw result whose content holds an image part:
  when the handler's \<^verbatim>\<open>initialize\<close> or \<^verbatim>\<open>processToolResult\<close> fails, \<^verbatim>\<open>callTool\<close> fails
  with that error; when both succeed, it returns the raw result with \<^verbatim>\<open>content\<close> and
  \<^verbatim>\<open>savedImages\<close> replaced by the handler's.
\<close>

theorem callTool_post_processing:
  assumes "sessions c sid = Some session"
    and "imageHandler config = Some handler"
    and "getCurrentUserId config = Some (Some userId)"
    and "userId \<noteq> []"
    and "get_member result ''content'' = JArray items"
    and "hasImages items"
  shows "callTool config (Inr result) c sid =
           (case initialize handler of
              Some e \<Rightarrow> Inl e
            | None \<Rightarrow>
                (case processToolResult handler of
                   Inl e \<Rightarrow> Inl e
                 | Inr p \<Rightarrow> Inr (with_processed result p)))"
  using assms by (simp add: callTool_def)

theorem callTool_post_processing_witness:
  "callTool
     \<lparr>imageHandler = Some \<lparr>initialize = None,
                            processToolResult = Inr \<lparr>content = JArray [], savedImages = JArray [JString ''a.png'']\<rparr>\<rparr>,
      getCurrentUserId = Some (Some ''u1'')\<rparr>
     (Inr (JObject [(''content'',
             JArray [JObject [(''type'', JString ''image''), (''data'', JString ''iVBOR'')]])]))
     \<lparr>sessions = [''s'' \<mapsto> 1], closed = []\<rparr> ''s''
   = (Inr (JObject [(''content'', JArray []), (''savedImages'', JArray [JString ''a.png''])])
        :: thrown + int json)"
  using callTool_post_processing
    [of "\<lparr>sessions = [''s'' \<mapsto> 1], closed = []\<rparr>" "''s''" 1
        "\<lparr>imageHandler = Some \<lparr>initialize = None,
                            processToolResult = Inr \<lparr>content = JArray [], savedImages = JArray [JString ''a.png'']\<rparr>\<rparr>,
          getCurrentUserId = Some (Some ''u1'')\<rparr>"
        "\<lparr>initialize = None,
          processToolResult = Inr \<lparr>content = JArray [], savedImages = JArray [JString ''a.png'']\<rparr>\<rparr>"
        "''u1''"
        "JObject [(''content'',
             JArray [JObject [(''type'', JString ''image''), (''data'', JString ''iVBOR'')]])] :: int json"
        "[JObject [(''type'', JString ''image''), (''data'', JString ''iVBOR'')]]"]
  by (simp add: hasImages_def get_member_def own_property_def truthy_def with_processed_def)

text \<open>
  Claim C10. \<^verbatim>\<open>getSessionInfo\<close> leaves the registry as it was; it answers
  \<^verbatim>\<open>{exists: false}\<close> for a key with no session and \<^verbatim>\<open>{exists: true, isConnected: true}\<close>
  for a key with one, so that \<^verbatim>\<open>isConnected\<close> is never \<^verbatim>\<open>false\<close>, whatever the registry
  recorded about the connection.
\<close>

theorem getSessionInfo_pure_read:
  "snd (getSessionInfo c sid) = c
   \<and> (sessions c sid = None
        \<longrightarrow> fst (getSessionInfo c sid) = \<lparr>exists = False, isConnected = None\<rparr>)
   \<and> (sessions c sid \<noteq> None
        \<longrightarrow> fst (getSessionInfo c sid) = \<lparr>exists = True, isConnected = Some True\<rparr>)
   \<and> isConnected (fst (getSessionInfo c sid)) \<noteq> Some False"
  by (auto simp: getSessionInfo_def split: option.splits)

text \<open>
  A registry in which session \<open>3\<close> is registered under \<^verbatim>\<open>s\<close> although the collaborator
  has already closed it: the answer is still \<^verbatim>\<open>isConnected: true\<close>.
\<close>

theorem getSessionInfo_pure_read_witness:
  "getSessionInfo \<lparr>sessions = [''s'' \<mapsto> 3], closed = [3]\<rparr> ''s''
     = (\<lparr>exists = True, isConnected = Some True\<rparr>, \<lparr>sessions = [''s'' \<mapsto> 3], closed = [3]\<rparr>)
   \<and> getSessionInfo \<lparr>sessions = [''s'' \<mapsto> 3], closed = [3]\<rparr> ''t''
     = (\<lparr>exists = False, isConnected = None\<rparr>, \<lparr>sessions = [''s'' \<mapsto> 3], closed = [3]\<rparr>)"
proof -
  let ?c = "\<lparr>sessions = [''s'' \<mapsto> 3], closed = [3]\<rparr>"
  have s: "sessions ?c ''s'' \<noteq> None" and t: "sessions ?c ''t'' = None" by simp_all
  show ?thesis
    using getSessionInfo_pure_read [of ?c "''s''"] getSessionInfo_pure_read [of ?c "''t''"] s t
    by (simp add: prod_eq_iff)
qed

section \<open>Properties of the Tool Adapter Builder\<close>

lemmas eval_builder = execute_def continue_def execute_begin_def resume_def settle_check_def
  settle_confirmation_def settle_callTool_def dispatch_def catch_block_def finished_def
  fires_def abort_def abort_listener_def new_turn_def sanitizedParams_def normalize_call_tool_def
  toolSchema_def isChatGPTModel_def checkToolConfirmation_def denial_result_def text_result_def
  message_of_def message_or_string_def startsWith_def trim_def is_white_space_def
  JSON_parse_sample sample_parse_def decimal.simps sample_options_def install_server_def
  search_servers_def found_def allow_def deny_def no_abort_def two_in_flight_def

text \<open>
  Every stretch of \<^verbatim>\<open>execute\<close> leaves fewer awaits ahead, so a call that is answered at
  each await comes to its end: it returns or it throws.
\<close>

lemma awaits_left_dispatch: "awaits_left (fst (dispatch opts tool c p t)) < 2"
  by (simp add: dispatch_def finished_def)

lemma awaits_left_dispatch_3: "awaits_left (fst (dispatch opts tool c p t)) < 3"
  using awaits_left_dispatch [of opts tool c p t] by simp

lemma awaits_left_dispatch_le: "awaits_left (fst (dispatch opts tool c p t)) \<le> 3"
  using awaits_left_dispatch [of opts tool c p t] by simp

lemma awaits_left_resume: "awaits_left (fst (resume opts tool c p ans t)) < awaits_left (Suspended c p)"
proof (cases p)
  case (CheckToolConfirmation s)
  then show ?thesis
    by (simp add: resume_def settle_check_def finished_def awaits_left_dispatch_3
        split: sum.splits option.splits)
next
  case (RequestConfirmation s ty)
  then show ?thesis
    by (simp add: resume_def settle_confirmation_def finished_def Let_def awaits_left_dispatch
        split: sum.splits)
next
  case McpCallTool
  then show ?thesis by (simp add: resume_def finished_def)
qed

lemma awaits_left_continue:
  "awaits_left (fst (continue opts tool ans sch pt)) \<le> awaits_left (fst pt) - 1"
proof (cases pt)
  case (Pair pr t)
  show ?thesis
  proof (cases pr)
    case (Finished out)
    then show ?thesis using Pair by (simp add: continue_def)
  next
    case (Suspended c p)
    then show ?thesis
      using Pair awaits_left_resume [of opts tool c p ans "if fires sch p then abort t else t"]
      by (simp add: continue_def)
  qed
qed

lemma awaits_left_begin: "awaits_left (fst (execute_begin opts tool params now t)) \<le> 3"
  by (simp add: execute_begin_def Let_def finished_def awaits_left_dispatch_le)

lemma execute_finishes:
  "\<exists>out t'. execute opts tool ans sch params now t = (Finished out, t')"
proof -
  let ?p0 = "execute_begin opts tool params now t"
  let ?p1 = "continue opts tool ans sch ?p0"
  let ?p2 = "continue opts tool ans sch ?p1"
  let ?p3 = "continue opts tool ans sch ?p2"
  have "awaits_left (fst ?p3) \<le> awaits_left (fst ?p2) - 1" by (rule awaits_left_continue)
  moreover have "awaits_left (fst ?p2) \<le> awaits_left (fst ?p1) - 1" by (rule awaits_left_continue)
  moreover have "awaits_left (fst ?p1) \<le> awaits_left (fst ?p0) - 1" by (rule awaits_left_continue)
  moreover have "awaits_left (fst ?p0) \<le> 3" by (rule awaits_left_begin)
  ultimately have "awaits_left (fst ?p3) = 0" by linarith
  then obtain out where "fst ?p3 = Finished out"
    by (cases "fst ?p3" rule: awaits_left.cases) simp_all
  then show ?thesis by (simp add: execute_def prod_eq_iff)
qed


text \<open>The abort event touches neither the dispatch log nor the confirmation log.\<close>

lemma abort_mcp_calls: "mcp_calls (abort t) = mcp_calls t"
  by (simp add: abort_def abort_listener_def)

lemma abort_requests: "confirmation_requests (abort t) = confirmation_requests t"
  by (simp add: abort_def abort_listener_def)

text \<open>
  The listener aborts exactly the controllers the map holds, and the \<^verbatim>\<open>catch\<close> block
  ends in the cancelled state once the turn or the call's controller is aborted.
\<close>

lemma abort_all_fold:
  "foldl (\<lambda>cs (toolExecutionId, controller). cs(controller := True)) cs xs a
   \<longleftrightarrow> cs a \<or> a \<in> snd ` set xs"
  by (induction xs arbitrary: cs) (auto simp: case_prod_beta)

lemma abort_listener_controllers:
  "controllers (abort_listener t) a \<longleftrightarrow> controllers t a \<or> a \<in> snd ` set (activeToolExecutions t)"
  by (simp add: abort_listener_def abort_all_fold)

lemma catch_block_cancelled:
  "aborted t \<or> controllers t (toolAbortController c)
   \<Longrightarrow> catch_block c e t
       = (Throws (JsError ''Tool execution cancelled''),
          t\<lparr>activeToolExecutions := AList.delete (toolExecutionId c) (activeToolExecutions t)\<rparr>)"
  by (auto simp: catch_block_def Let_def)

lemma catch_block_unregisters:
  "toolExecutionId c \<notin> fst ` set (activeToolExecutions (snd (catch_block c e t)))"
  using delete_notin_dom [of "toolExecutionId c" "activeToolExecutions t"]
  by (simp add: catch_block_def Let_def)

lemma execute_begin_aborted:
  "aborted t \<Longrightarrow>
   fst (execute_begin opts tool params now t) = Finished (Throws (JsError ''Stream cancelled''))
   \<and> toolName tool @ ''-'' @ decimal now
       \<notin> fst ` set (activeToolExecutions (snd (execute_begin opts tool params now t)))"
  using delete_notin_dom [of "toolName tool @ ''-'' @ decimal now"]
  by (simp add: execute_begin_def Let_def)

text \<open>
  The \<^verbatim>\<open>catch\<close> block and the early exit remove the entry of the call. The two
  \<^verbatim>\<open>return\<close> statements inside the \<^verbatim>\<open>try\<close> do not pass through either.
\<close>

lemma execute_begin_registers:
  "\<not> aborted t \<Longrightarrow>
   map_of (activeToolExecutions (snd (execute_begin opts tool params now t)))
     (toolName tool @ ''-'' @ decimal now) = Some (allocated t)"
  by (simp add: execute_begin_def Let_def dispatch_def finished_def catch_block_def update_conv')

text \<open>
  Claim C1 says that the entry of a call has left \<^verbatim>\<open>activeToolExecutions\<close> on every
  exit path. On the two paths that end in a \<^verbatim>\<open>return\<close> inside the \<^verbatim>\<open>try\<close> it has not:
  a \<^verbatim>\<open>search_servers\<close> call that is dispatched and answered, and an \<^verbatim>\<open>install_server\<close>
  call whose confirmation is denied, both started at time 1000 in a fresh turn, return
  their result and leave their entry in the map.
\<close>

theorem execute_leaves_entry_registered:
  "fst (execute (sample_options False) search_servers
          \<lparr>requestConfirmation = Inr deny, mcp_callTool = Inr found\<rparr> no_abort
          (JObject [(''query'', JString ''weather'')]) 1000 new_turn)
     = Finished (Returns found)
   \<and> activeToolExecutions
        (snd (execute (sample_options False) search_servers
               \<lparr>requestConfirmation = Inr deny, mcp_callTool = Inr found\<rparr> no_abort
               (JObject [(''query'', JString ''weather'')]) 1000 new_turn))
     = [(''search_servers-1000'', 0)]
   \<and> fst (execute (sample_options True) install_server
          \<lparr>requestConfirmation = Inr deny, mcp_callTool = Inr found\<rparr> no_abort
          (JObject [(''server_id'', JString ''weather'')]) 1000 new_turn)
     = Finished (Returns (denial_result deny))
   \<and> activeToolExecutions
        (snd (execute (sample_options True) install_server
               \<lparr>requestConfirmation = Inr deny, mcp_callTool = Inr found\<rparr> no_abort
               (JObject [(''server_id'', JString ''weather'')]) 1000 new_turn))
     = [(''install_server-1000'', 0)]"
  by (simp add: eval_builder eval_json deepSanitizeParams.simps)

text \<open>
  Claim C4. When the host is interactive, the tool is one the confirmation table knows
  and the confirmation request is answered with \<^verbatim>\<open>allowed = false\<close>, the call returns
  the cancellation message as an ordinary result (nothing is thrown, nothing is marked
  \<^verbatim>\<open>isError\<close>), and \<^verbatim>\<open>adapter.mcp.callTool\<close> is not invoked: the dispatch log of the
  turn is what it was before the call. This holds whether or not the turn is cancelled
  while the call waits; the one request made was the confirmation request.
\<close>

theorem denial_short_circuits:
  assumes "\<not> aborted t"
    and "isInteractive opts"
    and "checkToolConfirmation (toolName tool) (sanitizedParams opts tool params) = Inr (Some request)"
    and "requestConfirmation ans = Inr result"
    and "\<not> allowed result"
  shows "fst (execute opts tool ans sch params now t) = Finished (Returns (denial_result result))
         \<and> mcp_calls (snd (execute opts tool ans sch params now t)) = mcp_calls t
         \<and> confirmation_requests (snd (execute opts tool ans sch params now t))
             = confirmation_requests t @ [(streamId opts, request)]"
proof -
  define c where "c = \<lparr>toolExecutionId = toolName tool @ ''-'' @ decimal now,
                        toolAbortController = allocated t\<rparr>"
  define t1 where "t1 = t\<lparr>controllers := (controllers t)(allocated t := False),
                 allocated := Suc (allocated t),
                 activeToolExecutions :=
                   AList.update (toolExecutionId c) (toolAbortController c) (activeToolExecutions t)\<rparr>"
  define s where "s = sanitizedParams opts tool params"
  have start: "execute_begin opts tool params now t = (Suspended c (CheckToolConfirmation s), t1)"
    using assms(1,2) by (simp add: execute_begin_def Let_def c_def t1_def s_def)
  define t2 where "t2 = (if abort_while_checking sch then abort t1 else t1)"
  define t3 where "t3 = t2\<lparr>confirmation_requests := confirmation_requests t2 @ [(streamId opts, request)]\<rparr>"
  have step1: "continue opts tool ans sch (Suspended c (CheckToolConfirmation s), t1)
               = (Suspended c (RequestConfirmation s (type request)), t3)"
    using assms(3) by (simp add: continue_def resume_def fires_def settle_check_def t2_def t3_def s_def)
  define t4 where "t4 = (if abort_while_confirming sch then abort t3 else t3)"
  have step2: "continue opts tool ans sch (Suspended c (RequestConfirmation s (type request)), t3)
               = (Finished (Returns (denial_result result)), t4)"
    using assms(4,5) by (simp add: continue_def resume_def fires_def settle_confirmation_def t4_def)
  have step3: "continue opts tool ans sch (Finished (Returns (denial_result result)), t4)
               = (Finished (Returns (denial_result result)), t4)"
    by (simp add: continue_def)
  have ex: "execute opts tool ans sch params now t = (Finished (Returns (denial_result result)), t4)"
    by (simp add: execute_def start step1 step2 step3)
  have "mcp_calls t4 = mcp_calls t"
    by (simp add: t4_def t3_def t2_def t1_def abort_mcp_calls)
  moreover have "confirmation_requests t4 = confirmation_requests t @ [(streamId opts, request)]"
    by (simp add: t4_def t3_def t2_def t1_def abort_requests)
  ultimately show ?thesis by (simp add: ex)
qed


text \<open>
  The scenario of the specification: \<^verbatim>\<open>install_server\<close> called with
  \<^verbatim>\<open>{server_id: "weather"}\<close>, and the host denies.
\<close>

theorem denial_short_circuits_witness:
  "fst (execute (sample_options True) install_server
          \<lparr>requestConfirmation = Inr deny, mcp_callTool = Inr found\<rparr> no_abort
          (JObject [(''server_id'', JString ''weather'')]) 1000 new_turn)
     = Finished (Returns (JObject [(''content'',
          JArray [JObject [(''type'', JString ''text''),
                           (''text'', JString ''Operation cancelled: User denied the operation'')]])]))
   \<and> mcp_calls
        (snd (execute (sample_options True) install_server
               \<lparr>requestConfirmation = Inr deny, mcp_callTool = Inr found\<rparr> no_abort
               (JObject [(''server_id'', JString ''weather'')]) 1000 new_turn))
     = []"
proof -
  let ?request = "\<lparr>type = ''install'',
         data = [(''serverId'', JString ''weather''), (''serverName'', JUndefined),
                 (''config'', JUndefined)]\<rparr> :: int ConfirmationRequest"
  have 1: "\<not> aborted (new_turn :: int turn)"
    by (simp add: new_turn_def)
  have 2: "isInteractive (sample_options True)"
    by (simp add: sample_options_def)
  have 3: "checkToolConfirmation (toolName install_server)
             (sanitizedParams (sample_options True) install_server
                (JObject [(''server_id'', JString ''weather'')]))
           = Inr (Some ?request)"
    by (simp add: eval_builder eval_json deepSanitizeParams.simps)
  have 4: "requestConfirmation \<lparr>requestConfirmation = Inr deny, mcp_callTool = Inr found\<rparr> = Inr deny"
    by simp
  have 5: "\<not> allowed deny"
    by (simp add: deny_def)
  show ?thesis
    using denial_short_circuits [OF 1 2 3 4 5, of no_abort 1000]
    by (simp add: denial_result_def text_result_def deny_def new_turn_def)
qed

text \<open>
  Claim C3 as stated: once the turn is cancelled, no call in flight completes
  successfully. A call whose dispatch has been issued does: the turn is cancelled while
  \<^verbatim>\<open>search_servers\<close> waits for \<^verbatim>\<open>adapter.mcp.callTool\<close>, the listener aborts the call's
  controller and clears the map, and when the dispatch answers the call returns the
  answer. Nothing looks at the signal after the await.
\<close>

theorem dispatched_call_completes_after_cancellation:
  "fst (execute (sample_options False) search_servers
          \<lparr>requestConfirmation = Inr deny, mcp_callTool = Inr found\<rparr>
          \<lparr>abort_while_checking = False, abort_while_confirming = False,
           abort_while_calling = True\<rparr>
          (JObject [(''query'', JString ''weather'')]) 1000 new_turn)
     = Finished (Returns found)
   \<and> aborted
        (snd (execute (sample_options False) search_servers
          \<lparr>requestConfirmation = Inr deny, mcp_callTool = Inr found\<rparr>
          \<lparr>abort_while_checking = False, abort_while_confirming = False,
           abort_while_calling = True\<rparr>
          (JObject [(''query'', JString ''weather'')]) 1000 new_turn))
   \<and> controllers
        (snd (execute (sample_options False) search_servers
          \<lparr>requestConfirmation = Inr deny, mcp_callTool = Inr found\<rparr>
          \<lparr>abort_while_checking = False, abort_while_confirming = False,
           abort_while_calling = True\<rparr>
          (JObject [(''query'', JString ''weather'')]) 1000 new_turn)) 0
   \<and> activeToolExecutions
        (snd (execute (sample_options False) search_servers
          \<lparr>requestConfirmation = Inr deny, mcp_callTool = Inr found\<rparr>
          \<lparr>abort_while_checking = False, abort_while_confirming = False,
           abort_while_calling = True\<rparr>
          (JObject [(''query'', JString ''weather'')]) 1000 new_turn))
     = []"
  by (simp add: eval_builder eval_json deepSanitizeParams.simps)

text \<open>
  Claim C3, amended. When the turn-level cancellation signal fires, every controller
  registered in the active-executions map is cancelled and the map is empty immediately
  after. From then on a call in flight whose controller was cancelled issues no dispatch
  and ends in the cancelled state, throwing \<^verbatim>\<open>Tool execution cancelled\<close>, with two
  exceptions: a call whose dispatch had already been issued returns the dispatch's
  result when the dispatch succeeds, and a call whose confirmation is answered with a
  denial returns the denial message. (A call that was still waiting for
  \<^verbatim>\<open>checkToolConfirmation\<close> and needs a confirmation goes on to request it.)
\<close>

theorem turn_cancellation:
  fixes t u :: "('n::zero) turn"
  assumes "\<not> aborted t"
  shows "activeToolExecutions (abort t) = []
       \<and> aborted (abort t)
       \<and> (\<forall>(toolExecutionId, controller) \<in> set (activeToolExecutions t). controllers (abort t) controller)
       \<and> (aborted u \<and> controllers u (toolAbortController c) \<longrightarrow>
            mcp_calls (snd (resume opts tool c p ans u)) = mcp_calls u
          \<and> (case fst (resume opts tool c p ans u) of
                Finished (Throws e) \<Rightarrow> e = JsError ''Tool execution cancelled''
              | Finished (Returns r) \<Rightarrow>
                  (p = McpCallTool \<and> mcp_callTool ans = Inr r)
                  \<or> (\<exists>s ty result. p = RequestConfirmation s ty
                        \<and> requestConfirmation ans = Inr result \<and> \<not> allowed result
                        \<and> r = denial_result result)
              | Suspended c' p' \<Rightarrow>
                  c' = c \<and> (\<exists>s request. p = CheckToolConfirmation s
                        \<and> checkToolConfirmation (toolName tool) s = Inr (Some request)
                        \<and> p' = RequestConfirmation s (type request))))"
proof (intro conjI impI)
  show "activeToolExecutions (abort t) = []"
    using assms by (simp add: abort_def abort_listener_def)
  show "aborted (abort t)"
    using assms by (simp add: abort_def abort_listener_def)
  show "\<forall>(toolExecutionId, controller) \<in> set (activeToolExecutions t). controllers (abort t) controller"
    using assms by (auto simp: abort_def abort_listener_controllers intro: rev_image_eqI)
next
  assume u: "aborted u \<and> controllers u (toolAbortController c)"
  have disp: "dispatch opts tool c fp v
      = (Finished (Throws (JsError ''Tool execution cancelled'')),
         v\<lparr>activeToolExecutions := AList.delete (toolExecutionId c) (activeToolExecutions v)\<rparr>)"
    if "controllers v (toolAbortController c)" for fp and v :: "'n turn"
    using that by (simp add: dispatch_def finished_def catch_block_cancelled)
  show "mcp_calls (snd (resume opts tool c p ans u)) = mcp_calls u"
    using u
    by (cases p)
       (auto simp: resume_def settle_check_def settle_confirmation_def settle_callTool_def
          finished_def catch_block_cancelled disp Let_def split: sum.splits option.splits)
  show "case fst (resume opts tool c p ans u) of
          Finished (Throws e) \<Rightarrow> e = JsError ''Tool execution cancelled''
        | Finished (Returns r) \<Rightarrow>
            (p = McpCallTool \<and> mcp_callTool ans = Inr r)
            \<or> (\<exists>s ty result. p = RequestConfirmation s ty
                  \<and> requestConfirmation ans = Inr result \<and> \<not> allowed result
                  \<and> r = denial_result result)
        | Suspended c' p' \<Rightarrow>
            c' = c \<and> (\<exists>s request. p = CheckToolConfirmation s
                  \<and> checkToolConfirmation (toolName tool) s = Inr (Some request)
                  \<and> p' = RequestConfirmation s (type request))"
    using u
    by (cases p)
       (auto simp: resume_def settle_check_def settle_confirmation_def settle_callTool_def
          finished_def catch_block_cancelled disp Let_def split: sum.splits option.splits)
qed


text \<open>
  With two calls in flight: the cancellation empties the map and aborts both
  controllers; \<^verbatim>\<open>install_server\<close>, granted afterwards, and \<^verbatim>\<open>search_servers\<close>, whose
  dispatch fails afterwards, both end cancelled.
\<close>

theorem turn_cancellation_witness:
  "activeToolExecutions (abort two_in_flight) = []
   \<and> controllers (abort two_in_flight) 0
   \<and> controllers (abort two_in_flight) 1
   \<and> fst (resume (sample_options True) install_server
            \<lparr>toolExecutionId = ''install_server-1'', toolAbortController = 0\<rparr>
            (RequestConfirmation (JObject [(''server_id'', JString ''weather'')]) ''install'')
            \<lparr>requestConfirmation = Inr allow, mcp_callTool = Inr found\<rparr>
            (abort two_in_flight))
       = Finished (Throws (JsError ''Tool execution cancelled''))
   \<and> fst (resume (sample_options True) search_servers
            \<lparr>toolExecutionId = ''search_servers-2'', toolAbortController = 1\<rparr>
            McpCallTool
            \<lparr>requestConfirmation = Inr allow, mcp_callTool = Inl (JsError ''socket hang up'')\<rparr>
            (abort two_in_flight))
       = Finished (Throws (JsError ''Tool execution cancelled''))"
proof -
  have "\<not> aborted two_in_flight"
    by (simp add: two_in_flight_def)
  from turn_cancellation [OF this, of "abort two_in_flight"
      "\<lparr>toolExecutionId = ''install_server-1'', toolAbortController = 0\<rparr>"
      "sample_options True" install_server
      "RequestConfirmation (JObject [(''server_id'', JString ''weather'')]) ''install''"
      "\<lparr>requestConfirmation = Inr allow, mcp_callTool = Inr found\<rparr>"]
  have "activeToolExecutions (abort two_in_flight) = []"
    and "\<forall>(toolExecutionId, controller) \<in> set (activeToolExecutions two_in_flight).
           controllers (abort two_in_flight) controller"
    by simp_all
  then show ?thesis
    by (simp add: eval_builder eval_json)
qed

text \<open>
  Cancellation lasts: no stretch of any call, and no further \<^verbatim>\<open>abort()\<close>, takes back
  that the turn's signal and a controller are aborted.
\<close>

lemma cancelled_abort: "cancelled t a \<Longrightarrow> cancelled (abort t) a"
  by (auto simp: cancelled_def abort_def abort_listener_def abort_all_fold)

lemma cancelled_catch_block: "cancelled t a \<Longrightarrow> cancelled (snd (catch_block c e t)) a"
  by (auto simp: cancelled_def catch_block_def Let_def)

lemma cancelled_dispatch: "cancelled t a \<Longrightarrow> cancelled (snd (dispatch opts tool c fp t)) a"
  using cancelled_catch_block [of t a c]
  by (auto simp: dispatch_def finished_def) (simp add: cancelled_def)

lemma cancelled_resume: "cancelled t a \<Longrightarrow> cancelled (snd (resume opts tool c p ans t)) a"
proof (cases p)
  case (CheckToolConfirmation s)
  assume "cancelled t a"
  then show ?thesis
    using CheckToolConfirmation cancelled_catch_block [of t a c] cancelled_dispatch [of t a opts tool c]
    by (auto simp: resume_def settle_check_def finished_def split: sum.splits option.splits)
       (simp add: cancelled_def)
next
  case (RequestConfirmation s ty)
  assume a: "cancelled t a"
  have "cancelled (t\<lparr>args_edited := x\<rparr>) a" for x
    using a by (simp add: cancelled_def)
  then show ?thesis
    using a RequestConfirmation cancelled_catch_block [of t a c]
      cancelled_dispatch [of _ a opts tool c]
    by (auto simp: resume_def settle_confirmation_def finished_def Let_def split: sum.splits)
next
  case McpCallTool
  assume "cancelled t a"
  then show ?thesis
    using McpCallTool cancelled_catch_block [of t a c]
    by (auto simp: resume_def settle_callTool_def finished_def split: sum.splits)
qed

lemma cancelled_execute_begin:
  "cancelled t a \<Longrightarrow> cancelled (snd (execute_begin opts tool params now t)) a"
  by (auto simp: cancelled_def execute_begin_def Let_def)


end
